theory Spec2Isabelle
  imports Main
begin

section \<open>Data model of \<open>Worker.ts\<close>\<close>

text \<open>
  Values that can be thrown or used as a rejection reason. \<open>JSON.parse\<close> throws a
  \<open>SyntaxError\<close>; the worker itself only ever builds plain \<open>Error\<close> objects.
\<close>

datatype error = Error string | SyntaxError string

text \<open>\<open>String(e)\<close> of an error object, as used by the template literal of line 121.\<close>

fun toString :: "error \<Rightarrow> string" where
  "toString (Error m) = (if m = [] then ''Error'' else ''Error: '' @ m)"
| "toString (SyntaxError m) = (if m = [] then ''SyntaxError'' else ''SyntaxError: '' @ m)"

text \<open>Decimal rendering of a non-negative integer inside a template literal.\<close>

function show_nat :: "nat \<Rightarrow> string" where
  "show_nat n =
     (if n < 10 then [char_of (48 + n)]
      else show_nat (n div 10) @ [char_of (48 + n mod 10)])"
  by pat_completeness auto
termination
  by (relation "measure id") auto

declare show_nat.simps [simp del]

text \<open>
  Modelled from the spec: the type \<open>RawJob\<close> of \<open>models/Job.ts\<close> is not part of the
  sources at hand. The spec describes a job record as an identifier, a raw string payload
  and a timeout; these are the three fields \<open>execute\<close> reads. \<open>Job<P>\<close> is the same
  record with the payload decoded.
\<close>

record rawJob =
  raw_id :: string
  raw_payload :: string
  raw_timeout :: int

record 'p job =
  job_id :: string
  job_payload :: 'p
  job_timeout :: int

text \<open>
  What one invocation of the user handler \<open>executer\<close> does. The handler returns a promise
  that fulfils with a value or rejects with a reason after a logical delay (the position in
  time at which it settles, in the unit of \<open>setTimeout\<close>), or that never settles; a
  handler that is not an \<open>async\<close> function may also throw before it returns a promise.
\<close>

datatype 'v settle =
    Resolves nat 'v
  | Rejects nat error
  | Throws error
  | NeverSettles

text \<open>The state of a promise once the event loop has nothing more to deliver to it.\<close>

datatype 'v promise = Pending | Fulfilled 'v | Rejected error

text \<open>
  The promise of an \<open>async\<close> method that awaits a promise and returns nothing: it settles
  as the awaited promise does, and fulfils with \<open>undefined\<close>, not with the awaited value.
\<close>

fun void :: "'v promise \<Rightarrow> unit promise" where
  "void Pending = Pending"
| "void (Fulfilled v) = Fulfilled ()"
| "void (Rejected e) = Rejected e"

text \<open>
  Observable events of one worker: the four lifecycle callbacks, each handler invocation,
  the timer of \<open>executeWithTimeout\<close> and the \<open>wait\<close> between two retry attempts.
\<close>

datatype 'p event =
    OnStart "'p job"
  | OnSuccess "'p job"
  | OnFailure "'p job" error
  | OnCompletion "'p job"
  | Invoked 'p
  | TimerSet int
  | Waited int

text \<open>
  The immutable part of a \<open>Worker\<close>. The handler may depend on how often it has been
  invoked before (a closure with a counter); a callback returns \<open>Some e\<close> when it throws
  \<open>e\<close>. JavaScript numbers are modelled as integers.
\<close>

record ('p, 'v) worker =
  name :: string
  concurrency :: int
  retries :: int
  executer :: "nat \<Rightarrow> 'p \<Rightarrow> 'v settle"
  onStart :: "'p job \<Rightarrow> error option"
  onSuccess :: "'p job \<Rightarrow> error option"
  onFailure :: "'p job \<Rightarrow> error \<Rightarrow> error option"
  onCompletion :: "'p job \<Rightarrow> error option"

record ('p, 'v) workerOptions =
  opt_onStart :: "('p job \<Rightarrow> error option) option"
  opt_onSuccess :: "('p job \<Rightarrow> error option) option"
  opt_onFailure :: "('p job \<Rightarrow> error \<Rightarrow> error option) option"
  opt_onCompletion :: "('p job \<Rightarrow> error option) option"
  opt_concurrency :: "int option"
  opt_retries :: "int option"

text \<open>
  The mutable part: the private field \<open>executionCount\<close>, the number of handler invocations
  made so far and the events observed so far.
\<close>

record 'p wstate =
  executionCount :: int
  calls :: nat
  trace :: "'p event list"

definition no_options :: "('p, 'v) workerOptions" where
  "no_options =
     \<lparr>opt_onStart = None, opt_onSuccess = None, opt_onFailure = None,
      opt_onCompletion = None, opt_concurrency = None, opt_retries = None\<rparr>"

definition Worker ::
  "string \<Rightarrow> (nat \<Rightarrow> 'p \<Rightarrow> 'v settle) \<Rightarrow> ('p, 'v) workerOptions \<Rightarrow> ('p, 'v) worker" where
  "Worker nm ex options =
     \<lparr>name = nm,
      concurrency = (case opt_concurrency options of None \<Rightarrow> 5 | Some c \<Rightarrow> c),
      retries = (case opt_retries options of None \<Rightarrow> 0 | Some r \<Rightarrow> r),
      executer = ex,
      onStart = (case opt_onStart options of None \<Rightarrow> (\<lambda>j. None) | Some f \<Rightarrow> f),
      onSuccess = (case opt_onSuccess options of None \<Rightarrow> (\<lambda>j. None) | Some f \<Rightarrow> f),
      onFailure = (case opt_onFailure options of None \<Rightarrow> (\<lambda>j e. None) | Some f \<Rightarrow> f),
      onCompletion = (case opt_onCompletion options of None \<Rightarrow> (\<lambda>j. None) | Some f \<Rightarrow> f)\<rparr>"

definition init_state :: "'p wstate" where
  "init_state = \<lparr>executionCount = 0, calls = 0, trace = []\<rparr>"

definition isBusy :: "('p, 'v) worker \<Rightarrow> 'p wstate \<Rightarrow> bool" where
  "isBusy w s \<longleftrightarrow> executionCount s = concurrency w"

definition availableExecuters :: "('p, 'v) worker \<Rightarrow> 'p wstate \<Rightarrow> int" where
  "availableExecuters w s = concurrency w - executionCount s"

section \<open>The three ways of running the handler\<close>

definition emit :: "'p event \<Rightarrow> 'p wstate \<Rightarrow> 'p wstate" where
  "emit e s = s\<lparr>trace := trace s @ [e]\<rparr>"

text \<open>\<open>this.executer(payload)\<close>: one invocation of the handler.\<close>

definition invoke :: "('p, 'v) worker \<Rightarrow> 'p \<Rightarrow> 'p wstate \<Rightarrow> 'v settle \<times> 'p wstate" where
  "invoke w p s = (executer w (calls s) p, emit (Invoked p) (s\<lparr>calls := Suc (calls s)\<rparr>))"

text \<open>
  Line 85, \<open>await this.executer(payload)\<close>: the promise the plain mode awaits. A handler
  that throws before returning its promise is caught by the same \<open>try\<close> as a rejection.
\<close>

definition await_executer ::
  "('p, 'v) worker \<Rightarrow> 'p job \<Rightarrow> 'p wstate \<Rightarrow> 'v promise \<times> 'p wstate" where
  "await_executer w jb s =
     (case invoke w (job_payload jb) s of
        (Resolves d v, s1) \<Rightarrow> (Fulfilled v, s1)
      | (Rejects d e, s1) \<Rightarrow> (Rejected e, s1)
      | (Throws e, s1) \<Rightarrow> (Rejected e, s1)
      | (NeverSettles, s1) \<Rightarrow> (Pending, s1))"

text \<open>
  The delay after which a callback handed to \<open>setTimeout\<close> with the given number of
  milliseconds runs. The delay is a 32-bit quantity: Node.js sets a delay above
  \<open>2147483647\<close> or below \<open>1\<close> to \<open>1\<close>. Hosts differ outside that range and agree
  within it.
\<close>

definition setTimeout_delay :: "int \<Rightarrow> int" where
  "setTimeout_delay ms = (if ms < 1 \<or> 2147483647 < ms then 1 else ms)"

text \<open>
  \<open>Promise.race([timeoutPromise, handlerPromise])\<close> of line 102. The timer rejects once
  the delay of \<open>setTimeout(_, timeout)\<close> has passed; the handler's promise settles at its
  own delay. The earlier one decides; on a tie the timer does, its callback having been
  registered first.
\<close>

definition timeoutError :: "'p job \<Rightarrow> error" where
  "timeoutError jb = Error (''Job '' @ job_id jb @ '' timed out'')"

fun race :: "'p job \<Rightarrow> int \<Rightarrow> 'v settle \<Rightarrow> 'v promise" where
  "race jb timeout (Resolves d v) =
     (if int d < setTimeout_delay timeout then Fulfilled v else Rejected (timeoutError jb))"
| "race jb timeout (Rejects d e) =
     (if int d < setTimeout_delay timeout then Rejected e else Rejected (timeoutError jb))"
| "race jb timeout (Throws e) = Rejected e"
| "race jb timeout NeverSettles = Rejected (timeoutError jb)"

text \<open>
  \<open>executeWithTimeout\<close>, lines 96 to 103: the timer is set, the handler is invoked, and
  the method awaits the race without returning its value.
\<close>

definition executeWithTimeout ::
  "('p, 'v) worker \<Rightarrow> 'p job \<Rightarrow> int \<Rightarrow> 'p wstate \<Rightarrow> unit promise \<times> 'p wstate" where
  "executeWithTimeout w jb timeout s =
     (case invoke w (job_payload jb) (emit (TimerSet timeout) s) of
        (h, s1) \<Rightarrow> (void (race jb timeout h), s1))"

text \<open>
  \<open>executeWithRetry\<close>, lines 114 to 133. The method awaits the promise \<open>tmp\<close> of its
  level and returns nothing, so its own promise settles as \<open>tmp\<close> does, without a value.
  \<open>resolve\<close> is only reached from the handler's own fulfilment.
  In the \<open>catch\<close> handler \<open>reject\<close> is called when \<open>retryCount >= retries\<close>, and in
  either case the handler goes on to \<open>wait(timeout)\<close> and to the next level, whose
  promise is returned into a chain nobody reads (\<open>.then(result => result)\<close>,
  \<open>.catch(error => error)\<close>); it is dropped here as well.

  The first argument bounds how many of these later levels are followed: the handler may
  go on failing for ever, and each level only adds events.
\<close>

definition exhaustedError :: "'p job \<Rightarrow> nat \<Rightarrow> error \<Rightarrow> error" where
  "exhaustedError jb retryCount reason =
     Error (''Job '' @ job_id jb @ '' was rejected after '' @ show_nat retryCount
            @ '' retries. Stack trace: '' @ toString reason)"

fun executeWithRetry ::
  "nat \<Rightarrow> ('p, 'v) worker \<Rightarrow> 'p job \<Rightarrow> int \<Rightarrow> int \<Rightarrow> nat \<Rightarrow> 'p wstate
     \<Rightarrow> unit promise \<times> 'p wstate" where
  "executeWithRetry n w jb rtries timeout retryCount s =
     (case invoke w (job_payload jb) s of
        (Resolves d v, s1) \<Rightarrow> (void (Fulfilled v), s1)
      | (Throws e, s1) \<Rightarrow> (Rejected e, s1)
      | (NeverSettles, s1) \<Rightarrow> (Pending, s1)
      | (Rejects d reason, s1) \<Rightarrow>
          (let tmp = (if rtries \<le> int retryCount
                      then Rejected (exhaustedError jb retryCount reason) else Pending);
               s2 = emit (Waited timeout) s1
           in case n of
                0 \<Rightarrow> (tmp, s2)
              | Suc m \<Rightarrow> (tmp, snd (executeWithRetry m w jb rtries timeout (Suc retryCount) s2))))"

declare executeWithRetry.simps [simp del]

section \<open>\<open>execute\<close>\<close>

text \<open>
  The promise returned by \<open>execute\<close>: fulfilled, rejected with an error, or never settled
  because the promise it awaits never is.
\<close>

datatype outcome = Returned | Threw error | Suspended

text \<open>
  Lines 80 to 86: the promise \<open>execute\<close> awaits. Each \<open>await\<close> is an expression
  statement, so in plain mode the handler's value is dropped here.
\<close>

definition await_mode ::
  "nat \<Rightarrow> ('p, 'v) worker \<Rightarrow> 'p job \<Rightarrow> int \<Rightarrow> 'p wstate \<Rightarrow> unit promise \<times> 'p wstate" where
  "await_mode n w jb timeout s =
     (if retries w > 0 then executeWithRetry n w jb (retries w) timeout 0 s
      else if timeout > 0 then executeWithTimeout w jb timeout s
      else (case await_executer w jb s of (pr, s1) \<Rightarrow> (void pr, s1)))"

text \<open>The \<open>catch\<close> block: \<open>onFailure\<close>, then the caught error is thrown again.\<close>

definition run_catch ::
  "('p, 'v) worker \<Rightarrow> 'p job \<Rightarrow> error \<Rightarrow> 'p wstate \<Rightarrow> outcome \<times> 'p wstate" where
  "run_catch w jb e s =
     (case onFailure w jb e of
        Some e' \<Rightarrow> (Threw e', emit (OnFailure jb e) s)
      | None \<Rightarrow> (Threw e, emit (OnFailure jb e) s))"

text \<open>
  The \<open>finally\<close> block: the counter goes down, then \<open>onCompletion\<close>; an error thrown by
  it replaces the completion of the \<open>try\<close> statement.
\<close>

definition run_finally ::
  "('p, 'v) worker \<Rightarrow> 'p job \<Rightarrow> outcome \<times> 'p wstate \<Rightarrow> outcome \<times> 'p wstate" where
  "run_finally w jb rs =
     (case rs of (r, s) \<Rightarrow>
        (let s1 = emit (OnCompletion jb) (s\<lparr>executionCount := executionCount s - 1\<rparr>)
         in case onCompletion w jb of Some e \<Rightarrow> (Threw e, s1) | None \<Rightarrow> (r, s1)))"

text \<open>
  \<open>execute\<close> up to its \<open>await\<close>: either it is over already (the payload did not parse,
  or \<open>onStart\<close> threw), or it is suspended on a promise.
\<close>

datatype 'p begun = Done outcome | Awaiting "'p job" "unit promise"

text \<open>Line 76: the job with its payload replaced by the parsed one.\<close>

definition decode :: "rawJob \<Rightarrow> 'p \<Rightarrow> 'p job" where
  "decode rj p = \<lparr>job_id = raw_id rj, job_payload = p, job_timeout = raw_timeout rj\<rparr>"

definition execute_begin ::
  "nat \<Rightarrow> (string \<Rightarrow> error + 'p) \<Rightarrow> ('p, 'v) worker \<Rightarrow> rawJob \<Rightarrow> 'p wstate
     \<Rightarrow> 'p begun \<times> 'p wstate" where
  "execute_begin n JSON_parse w rj s =
     (case JSON_parse (raw_payload rj) of
        Inl e \<Rightarrow> (Done (Threw e), s)
      | Inr p \<Rightarrow>
          (let jb = decode rj p;
               s1 = s\<lparr>executionCount := executionCount s + 1\<rparr>;
               s2 = emit (OnStart jb) s1
           in case onStart w jb of
                Some e \<Rightarrow> (case run_finally w jb (run_catch w jb e s2) of (r, s3) \<Rightarrow> (Done r, s3))
              | None \<Rightarrow>
                  (case await_mode n w jb (raw_timeout rj) s2 of
                     (pr, s3) \<Rightarrow> (Awaiting jb pr, s3))))"

text \<open>\<open>execute\<close> from its \<open>await\<close> on, once the awaited promise is as given.\<close>

fun execute_resume ::
  "('p, 'v) worker \<Rightarrow> 'p job \<Rightarrow> unit promise \<Rightarrow> 'p wstate \<Rightarrow> outcome \<times> 'p wstate" where
  "execute_resume w jb Pending s = (Suspended, s)"
| "execute_resume w jb (Fulfilled v) s =
     run_finally w jb
       (case onSuccess w jb of
          None \<Rightarrow> (Returned, emit (OnSuccess jb) s)
        | Some e \<Rightarrow> run_catch w jb e (emit (OnSuccess jb) s))"
| "execute_resume w jb (Rejected e) s = run_finally w jb (run_catch w jb e s)"

definition execute ::
  "nat \<Rightarrow> (string \<Rightarrow> error + 'p) \<Rightarrow> ('p, 'v) worker \<Rightarrow> rawJob \<Rightarrow> 'p wstate
     \<Rightarrow> outcome \<times> 'p wstate" where
  "execute n JSON_parse w rj s =
     (case execute_begin n JSON_parse w rj s of
        (Done r, s') \<Rightarrow> (r, s')
      | (Awaiting jb pr, s') \<Rightarrow> execute_resume w jb pr s')"

section \<open>Concurrent calls of \<open>execute\<close> on one worker\<close>

text \<open>
  JavaScript runs each piece of \<open>execute\<close> between two suspension points without
  interruption, so an interleaving of several calls is a sequence of two kinds of steps:
  a new call runs up to its \<open>await\<close>, or one of the suspended calls whose promise has
  settled runs to its end. The suspended calls are kept in a list.
\<close>

datatype sched = Call rawJob | Resume nat

type_synonym 'p system = "'p wstate \<times> ('p job \<times> unit promise) list"

fun step ::
  "nat \<Rightarrow> (string \<Rightarrow> error + 'p) \<Rightarrow> ('p, 'v) worker \<Rightarrow> 'p system \<Rightarrow> sched
     \<Rightarrow> 'p system" where
  "step n JSON_parse w (s, pend) (Call rj) =
     (case execute_begin n JSON_parse w rj s of
        (Done r, s') \<Rightarrow> (s', pend)
      | (Awaiting jb pr, s') \<Rightarrow> (s', pend @ [(jb, pr)]))"
| "step n JSON_parse w (s, pend) (Resume i) =
     (if i < length pend \<and> snd (pend ! i) \<noteq> Pending
      then (snd (execute_resume w (fst (pend ! i)) (snd (pend ! i)) s),
            take i pend @ drop (Suc i) pend)
      else (s, pend))"

definition run ::
  "nat \<Rightarrow> (string \<Rightarrow> error + 'p) \<Rightarrow> ('p, 'v) worker \<Rightarrow> sched list \<Rightarrow> 'p system" where
  "run n JSON_parse w evs = foldl (step n JSON_parse w) (init_state, []) evs"

text \<open>
  A caller that dispatches by capacity: it calls \<open>execute\<close> only while the worker has a
  free executer.
\<close>

fun dispatched ::
  "nat \<Rightarrow> (string \<Rightarrow> error + 'p) \<Rightarrow> ('p, 'v) worker \<Rightarrow> 'p system \<Rightarrow> sched list
     \<Rightarrow> bool" where
  "dispatched n JSON_parse w sys [] = True"
| "dispatched n JSON_parse w sys (Call rj # evs) =
     (0 < availableExecuters w (fst sys)
      \<and> dispatched n JSON_parse w (step n JSON_parse w sys (Call rj)) evs)"
| "dispatched n JSON_parse w sys (Resume i # evs) =
     dispatched n JSON_parse w (step n JSON_parse w sys (Resume i)) evs"

section \<open>Observations\<close>

text \<open>The state of a call that has counted itself and announced its start.\<close>

definition entered :: "'p job \<Rightarrow> 'p wstate \<Rightarrow> 'p wstate" where
  "entered jb s = emit (OnStart jb) (s\<lparr>executionCount := executionCount s + 1\<rparr>)"

text \<open>The lifecycle callbacks among a list of events, and the events added between two states.\<close>

definition is_callback :: "'p event \<Rightarrow> bool" where
  "is_callback e = (case e of OnStart j \<Rightarrow> True | OnSuccess j \<Rightarrow> True | OnFailure j x \<Rightarrow> True
      | OnCompletion j \<Rightarrow> True | Invoked p \<Rightarrow> False | TimerSet t \<Rightarrow> False | Waited t \<Rightarrow> False)"

definition callbacks :: "'p event list \<Rightarrow> 'p event list" where
  "callbacks evs = filter is_callback evs"

definition since :: "'p wstate \<Rightarrow> 'p wstate \<Rightarrow> 'p event list" where
  "since s s' = drop (length (trace s)) (trace s')"

text \<open>
  The events of retry mode with \<open>k\<close> retries made: attempts, with one wait of the timeout
  between two of them.
\<close>

fun retry_events :: "'p \<Rightarrow> int \<Rightarrow> nat \<Rightarrow> 'p event list" where
  "retry_events p timeout 0 = [Invoked p]"
| "retry_events p timeout (Suc k) = Invoked p # Waited timeout # retry_events p timeout k"

text \<open>In a system of concurrent calls: the counter equals the number of suspended calls.\<close>

definition balanced :: "'p system \<Rightarrow> bool" where
  "balanced sys \<longleftrightarrow> executionCount (fst sys) = int (length (snd sys))"

section \<open>Mode selection as the specification words it\<close>

text \<open>
  The specification's execution policy: retry when \<open>retries > 0\<close>, timeout-only when
  \<open>retries = 0\<close> and \<open>timeout > 0\<close>, plain otherwise.
\<close>

datatype mode = Plain | TimeoutOnly | Retry

definition select_mode :: "int \<Rightarrow> int \<Rightarrow> mode" where
  "select_mode timeout rtries =
     (if rtries > 0 then Retry else if rtries = 0 \<and> timeout > 0 then TimeoutOnly else Plain)"

section \<open>Example inputs\<close>

text \<open>
  \<open>JSON.parse\<close> is a parameter of the model. The examples use a parser that agrees with it
  on the two payloads they contain: the empty object literal, and an unfinished one.
\<close>

definition parse_empty_object :: "string \<Rightarrow> error + unit" where
  "parse_empty_object str =
     (if str = ''{}'' then Inr () else Inl (SyntaxError ''Unexpected end of JSON input''))"

definition job_ok :: rawJob where
  "job_ok = \<lparr>raw_id = ''7'', raw_payload = ''{}'', raw_timeout = 0\<rparr>"

definition job_timed :: rawJob where
  "job_timed = \<lparr>raw_id = ''8'', raw_payload = ''{}'', raw_timeout = 50\<rparr>"

definition job_far :: rawJob where
  "job_far = \<lparr>raw_id = ''6'', raw_payload = ''{}'', raw_timeout = 2147483648\<rparr>"

definition job_malformed :: rawJob where
  "job_malformed = \<lparr>raw_id = ''9'', raw_payload = ''{'', raw_timeout = 0\<rparr>"

text \<open>Handlers: two that fulfil after a given delay (the second with a given value), one that
  never settles, one that always fails, and one that fails on its first two invocations only.\<close>

definition resolves_after :: "nat \<Rightarrow> nat \<Rightarrow> unit \<Rightarrow> nat settle" where
  "resolves_after d k p = Resolves d 42"

definition resolves_to :: "nat \<Rightarrow> nat \<Rightarrow> nat \<Rightarrow> unit \<Rightarrow> nat settle" where
  "resolves_to v d k p = Resolves d v"

definition never_settles :: "nat \<Rightarrow> unit \<Rightarrow> nat settle" where
  "never_settles k p = NeverSettles"

definition always_failing :: "nat \<Rightarrow> unit \<Rightarrow> nat settle" where
  "always_failing k p = Rejects 0 (Error ''boom'')"

definition fails_twice :: "nat \<Rightarrow> unit \<Rightarrow> nat settle" where
  "fails_twice k p = (if k < 2 then Rejects 0 (Error ''boom'') else Resolves 0 42)"

text \<open>Options: a number of retries, a number of executers, and callbacks that throw.\<close>

definition with_retries :: "int \<Rightarrow> (unit, nat) workerOptions" where
  "with_retries r = no_options\<lparr>opt_retries := Some r\<rparr>"

definition with_concurrency :: "int \<Rightarrow> (unit, nat) workerOptions" where
  "with_concurrency c = no_options\<lparr>opt_concurrency := Some c\<rparr>"

definition with_throwing_onStart :: "(unit, nat) workerOptions" where
  "with_throwing_onStart = no_options\<lparr>opt_onStart := Some (\<lambda>j. Some (Error ''early''))\<rparr>"

definition with_throwing_onCompletion :: "(unit, nat) workerOptions" where
  "with_throwing_onCompletion =
     no_options\<lparr>opt_onCompletion := Some (\<lambda>j. Some (Error ''last''))\<rparr>"

definition with_throwing_onFailure :: "(unit, nat) workerOptions" where
  "with_throwing_onFailure = no_options\<lparr>opt_onFailure := Some (\<lambda>j e. Some (Error ''late''))\<rparr>"

definition with_throwing_onSuccess :: "(unit, nat) workerOptions" where
  "with_throwing_onSuccess = no_options\<lparr>opt_onSuccess := Some (\<lambda>j. Some (Error ''late''))\<rparr>"

section \<open>Basic facts\<close>

lemma emit_simps [simp]:
  "executionCount (emit e s) = executionCount s"
  "calls (emit e s) = calls s"
  "trace (emit e s) = trace s @ [e]"
  by (simp_all add: emit_def)

lemma invoke_simps [simp]:
  "fst (invoke w p s) = executer w (calls s) p"
  "executionCount (snd (invoke w p s)) = executionCount s"
  "calls (snd (invoke w p s)) = Suc (calls s)"
  "trace (snd (invoke w p s)) = trace s @ [Invoked p]"
  by (simp_all add: invoke_def)

lemma executeWithRetry_fst:
  "fst (executeWithRetry n w jb r t k s) =
     (case executer w (calls s) (job_payload jb) of
        Resolves d v \<Rightarrow> Fulfilled ()
      | Rejects d reason \<Rightarrow> (if r \<le> int k then Rejected (exhaustedError jb k reason) else Pending)
      | Throws e \<Rightarrow> Rejected e
      | NeverSettles \<Rightarrow> Pending)"
  by (cases n) (simp_all add: executeWithRetry.simps invoke_def Let_def split: settle.splits)

lemma executeWithRetry_count [simp]:
  "executionCount (snd (executeWithRetry n w jb r t k s)) = executionCount s"
proof (induction n arbitrary: k s)
  case 0
  show ?case
    by (simp add: executeWithRetry.simps [of 0] invoke_def Let_def split: settle.splits)
next
  case (Suc n)
  show ?case
    by (simp add: executeWithRetry.simps [of "Suc n"] invoke_def Suc.IH Let_def split: settle.splits)
qed

lemma executeWithRetry_trace:
  "\<exists>evs. trace (snd (executeWithRetry n w jb r t k s)) = trace s @ evs \<and> callbacks evs = []"
proof (induction n arbitrary: k s)
  case 0
  show ?case
    by (simp add: executeWithRetry.simps [of 0] invoke_def Let_def callbacks_def is_callback_def split: settle.splits)
next
  case (Suc n)
  show ?case
  proof (cases "executer w (calls s) (job_payload jb)")
    case (Rejects d reason)
    let ?s2 = "emit (Waited t) (snd (invoke w (job_payload jb) s))"
    from Suc.IH [of "Suc k" ?s2] obtain evs where
      "trace (snd (executeWithRetry n w jb r t (Suc k) ?s2)) = trace ?s2 @ evs" "callbacks evs = []"
      by blast
    with Rejects show ?thesis
      by (simp add: executeWithRetry.simps [of "Suc n"] invoke_def Let_def callbacks_def is_callback_def)
  qed (simp_all add: executeWithRetry.simps [of "Suc n"] invoke_def Let_def callbacks_def is_callback_def)
qed

lemma callbacks_simps [simp]:
  "callbacks [] = []"
  "callbacks (OnStart j # evs) = OnStart j # callbacks evs"
  "callbacks (OnSuccess j # evs) = OnSuccess j # callbacks evs"
  "callbacks (OnFailure j e # evs) = OnFailure j e # callbacks evs"
  "callbacks (OnCompletion j # evs) = OnCompletion j # callbacks evs"
  "callbacks (Invoked p # evs) = callbacks evs"
  "callbacks (TimerSet t # evs) = callbacks evs"
  "callbacks (Waited t # evs) = callbacks evs"
  "callbacks (xs @ ys) = callbacks xs @ callbacks ys"
  by (simp_all add: callbacks_def is_callback_def)

lemma since_append [simp]: "trace s' = trace s @ evs \<Longrightarrow> since s s' = evs"
  by (simp add: since_def)

lemma executeWithRetry_calls_ge:
  "calls s < calls (snd (executeWithRetry n w jb r t k s))"
proof (induction n arbitrary: k s)
  case 0
  show ?case
    by (simp add: executeWithRetry.simps [of 0] invoke_def Let_def split: settle.splits)
next
  case (Suc n)
  show ?case
  proof (cases "executer w (calls s) (job_payload jb)")
    case (Rejects d reason)
    let ?s2 = "emit (Waited t) (snd (invoke w (job_payload jb) s))"
    have "calls ?s2 < calls (snd (executeWithRetry n w jb r t (Suc k) ?s2))"
      by (rule Suc.IH)
    with Rejects show ?thesis
      by (simp add: executeWithRetry.simps [of "Suc n"] invoke_def Let_def)
  qed (simp_all add: executeWithRetry.simps [of "Suc n"] invoke_def Let_def)
qed

lemma executeWithRetry_first:
  "\<exists>evs. trace (snd (executeWithRetry n w jb r t k s)) = trace s @ Invoked (job_payload jb) # evs
         \<and> callbacks evs = []
         \<and> (\<forall>d e. executer w (calls s) (job_payload jb) = Rejects d e
               \<longrightarrow> (\<exists>rest. evs = Waited t # rest))
         \<and> (\<forall>d v. executer w (calls s) (job_payload jb) = Resolves d v \<longrightarrow> evs = [])"
proof (cases n)
  case 0
  then show ?thesis
    by (simp add: executeWithRetry.simps [of 0] invoke_def Let_def split: settle.splits)
next
  case (Suc m)
  show ?thesis
  proof (cases "executer w (calls s) (job_payload jb)")
    case (Rejects d reason)
    let ?s2 = "emit (Waited t) (snd (invoke w (job_payload jb) s))"
    obtain evs where
      "trace (snd (executeWithRetry m w jb r t (Suc k) ?s2)) = trace ?s2 @ evs" "callbacks evs = []"
      using executeWithRetry_trace [of m w jb r t "Suc k" ?s2] by blast
    with Rejects Suc show ?thesis
      by (simp add: executeWithRetry.simps [of "Suc m"] invoke_def Let_def)
  qed (simp_all add: Suc executeWithRetry.simps [of "Suc m"] invoke_def Let_def)
qed

lemma await_executer_simps [simp]:
  "executionCount (snd (await_executer w jb s)) = executionCount s"
  "calls (snd (await_executer w jb s)) = Suc (calls s)"
  "trace (snd (await_executer w jb s)) = trace s @ [Invoked (job_payload jb)]"
  by (simp_all add: await_executer_def invoke_def split: settle.splits)

lemma executeWithTimeout_simps [simp]:
  "executionCount (snd (executeWithTimeout w jb t s)) = executionCount s"
  "calls (snd (executeWithTimeout w jb t s)) = Suc (calls s)"
  "trace (snd (executeWithTimeout w jb t s)) = trace s @ [TimerSet t, Invoked (job_payload jb)]"
  "fst (executeWithTimeout w jb t s) = void (race jb t (executer w (calls s) (job_payload jb)))"
  by (simp_all add: executeWithTimeout_def invoke_def)

lemma await_executer_fst:
  "fst (await_executer w jb s) =
     (case executer w (calls s) (job_payload jb) of
        Resolves d v \<Rightarrow> Fulfilled v | Rejects d e \<Rightarrow> Rejected e
      | Throws e \<Rightarrow> Rejected e | NeverSettles \<Rightarrow> Pending)"
  by (simp add: await_executer_def invoke_def split: settle.splits)

lemma await_mode_count [simp]:
  "executionCount (snd (await_mode n w jb t s)) = executionCount s"
  by (simp add: await_mode_def case_prod_beta)

lemma await_mode_trace:
  "\<exists>evs. trace (snd (await_mode n w jb t s)) = trace s @ evs \<and> callbacks evs = []"
  using executeWithRetry_trace [of n w jb "retries w" t 0 s]
  by (simp add: await_mode_def case_prod_beta)

lemma run_catch_simps [simp]:
  "executionCount (snd (run_catch w jb e s)) = executionCount s"
  "calls (snd (run_catch w jb e s)) = calls s"
  "trace (snd (run_catch w jb e s)) = trace s @ [OnFailure jb e]"
  by (simp_all add: run_catch_def split: option.splits)

lemma run_catch_fst:
  "fst (run_catch w jb e s) = (case onFailure w jb e of Some e' \<Rightarrow> Threw e' | None \<Rightarrow> Threw e)"
  by (simp add: run_catch_def split: option.splits)

lemma run_finally_simps [simp]:
  "executionCount (snd (run_finally w jb rs)) = executionCount (snd rs) - 1"
  "calls (snd (run_finally w jb rs)) = calls (snd rs)"
  "trace (snd (run_finally w jb rs)) = trace (snd rs) @ [OnCompletion jb]"
  by (simp_all add: run_finally_def Let_def split: option.splits prod.splits)

lemma run_finally_fst:
  "fst (run_finally w jb rs) = (case onCompletion w jb of Some e \<Rightarrow> Threw e | None \<Rightarrow> fst rs)"
  by (simp add: run_finally_def Let_def split: option.splits prod.splits)

lemma execute_resume_count:
  "pr \<noteq> Pending \<Longrightarrow> executionCount (snd (execute_resume w jb pr s)) = executionCount s - 1"
  by (cases pr) (simp_all split: option.splits)

lemma execute_resume_calls [simp]:
  "calls (snd (execute_resume w jb pr s)) = calls s"
  by (cases pr) (simp_all split: option.splits)

lemma execute_resume_trace:
  "trace (snd (execute_resume w jb pr s)) = trace s @
     (case pr of
        Pending \<Rightarrow> []
      | Fulfilled v \<Rightarrow>
          (case onSuccess w jb of
             None \<Rightarrow> [OnSuccess jb, OnCompletion jb]
           | Some e \<Rightarrow> [OnSuccess jb, OnFailure jb e, OnCompletion jb])
      | Rejected e \<Rightarrow> [OnFailure jb e, OnCompletion jb])"
  by (cases pr) (simp_all split: option.splits)

lemma execute_resume_fst:
  "fst (execute_resume w jb pr s) =
     (case pr of
        Pending \<Rightarrow> Suspended
      | Fulfilled v \<Rightarrow>
          (case onCompletion w jb of
             Some c \<Rightarrow> Threw c
           | None \<Rightarrow>
               (case onSuccess w jb of
                  None \<Rightarrow> Returned
                | Some e \<Rightarrow> (case onFailure w jb e of Some e' \<Rightarrow> Threw e' | None \<Rightarrow> Threw e)))
      | Rejected e \<Rightarrow>
          (case onCompletion w jb of
             Some c \<Rightarrow> Threw c
           | None \<Rightarrow> (case onFailure w jb e of Some e' \<Rightarrow> Threw e' | None \<Rightarrow> Threw e)))"
  by (cases pr) (simp_all add: run_finally_fst run_catch_fst split: option.splits)

declare execute_resume.simps(2,3) [simp del]

lemma entered_simps [simp]:
  "executionCount (entered jb s) = executionCount s + 1"
  "calls (entered jb s) = calls s"
  "trace (entered jb s) = trace s @ [OnStart jb]"
  by (simp_all add: entered_def)

lemma decode_simps [simp]: "job_payload (decode rj p) = p" "job_id (decode rj p) = raw_id rj"
  by (simp_all add: decode_def)

lemma execute_parse_failure:
  "JSON_parse (raw_payload rj) = Inl e \<Longrightarrow> execute n JSON_parse w rj s = (Threw e, s)"
  by (simp add: execute_def execute_begin_def)

lemma execute_begin_parsed:
  "JSON_parse (raw_payload rj) = Inr p \<Longrightarrow>
   execute_begin n JSON_parse w rj s =
     (case onStart w (decode rj p) of
        Some e \<Rightarrow>
          (case run_finally w (decode rj p) (run_catch w (decode rj p) e (entered (decode rj p) s)) of
             (r, s3) \<Rightarrow> (Done r, s3))
      | None \<Rightarrow>
          (case await_mode n w (decode rj p) (raw_timeout rj) (entered (decode rj p) s) of
             (pr, s3) \<Rightarrow> (Awaiting (decode rj p) pr, s3)))"
  unfolding execute_begin_def entered_def Let_def by simp

lemma execute_parsed:
  "JSON_parse (raw_payload rj) = Inr p \<Longrightarrow>
   execute n JSON_parse w rj s =
     (case onStart w (decode rj p) of
        Some e \<Rightarrow> run_finally w (decode rj p) (run_catch w (decode rj p) e (entered (decode rj p) s))
      | None \<Rightarrow> execute_resume w (decode rj p)
                  (fst (await_mode n w (decode rj p) (raw_timeout rj) (entered (decode rj p) s)))
                  (snd (await_mode n w (decode rj p) (raw_timeout rj) (entered (decode rj p) s))))"
  by (simp add: execute_def execute_begin_parsed split: option.splits prod.splits)

lemma execute_count:
  assumes "JSON_parse (raw_payload rj) = Inr p"
      and "fst (execute n JSON_parse w rj s) \<noteq> Suspended"
  shows "executionCount (snd (execute n JSON_parse w rj s)) = executionCount s"
proof (cases "onStart w (decode rj p)")
  case None
  let ?m = "await_mode n w (decode rj p) (raw_timeout rj) (entered (decode rj p) s)"
  from assms None have "fst ?m \<noteq> Pending"
    by (auto simp: execute_parsed)
  then show ?thesis
    using assms(1) None by (simp add: execute_parsed execute_resume_count)
next
  case (Some e)
  with assms(1) show ?thesis by (simp add: execute_parsed)
qed

lemma execute_callbacks:
  assumes "JSON_parse (raw_payload rj) = Inr p"
  shows "\<exists>evs. trace (snd (execute n JSON_parse w rj s)) = trace s @ evs \<and>
     callbacks evs =
       (case onStart w (decode rj p) of
          Some e \<Rightarrow> [OnStart (decode rj p), OnFailure (decode rj p) e, OnCompletion (decode rj p)]
        | None \<Rightarrow>
           (case fst (await_mode n w (decode rj p) (raw_timeout rj) (entered (decode rj p) s)) of
              Pending \<Rightarrow> [OnStart (decode rj p)]
            | Fulfilled v \<Rightarrow>
                (case onSuccess w (decode rj p) of
                   None \<Rightarrow> [OnStart (decode rj p), OnSuccess (decode rj p), OnCompletion (decode rj p)]
                 | Some e \<Rightarrow> [OnStart (decode rj p), OnSuccess (decode rj p),
                              OnFailure (decode rj p) e, OnCompletion (decode rj p)])
            | Rejected e \<Rightarrow>
                [OnStart (decode rj p), OnFailure (decode rj p) e, OnCompletion (decode rj p)]))"
proof (cases "onStart w (decode rj p)")
  case (Some e)
  with assms show ?thesis by (simp add: execute_parsed)
next
  case None
  let ?s1 = "entered (decode rj p) s"
  let ?m = "await_mode n w (decode rj p) (raw_timeout rj) ?s1"
  obtain evs where evs: "trace (snd ?m) = trace ?s1 @ evs" "callbacks evs = []"
    using await_mode_trace [of n w "decode rj p" "raw_timeout rj" ?s1] by blast
  show ?thesis
    using assms None evs
    by (cases "fst ?m") (simp_all add: execute_parsed execute_resume_trace split: option.splits)
qed

lemma execute_last:
  assumes "JSON_parse (raw_payload rj) = Inr p"
      and "fst (execute n JSON_parse w rj s) \<noteq> Suspended"
  shows "last (trace (snd (execute n JSON_parse w rj s))) = OnCompletion (decode rj p)"
proof (cases "onStart w (decode rj p)")
  case None
  let ?m = "await_mode n w (decode rj p) (raw_timeout rj) (entered (decode rj p) s)"
  from assms None have "fst ?m \<noteq> Pending"
    by (auto simp: execute_parsed)
  then show ?thesis
    using assms(1) None
    by (cases "fst ?m") (simp_all add: execute_parsed execute_resume_trace split: option.splits)
next
  case (Some e)
  with assms(1) show ?thesis by (simp add: execute_parsed)
qed

lemma execute_begin_count:
  "executionCount (snd (execute_begin n JSON_parse w rj s)) =
     (case fst (execute_begin n JSON_parse w rj s) of
        Done r \<Rightarrow> executionCount s
      | Awaiting jb pr \<Rightarrow> executionCount s + 1)"
proof (cases "JSON_parse (raw_payload rj)")
  case (Inl e)
  then show ?thesis by (simp add: execute_begin_def)
next
  case (Inr p)
  then show ?thesis
    by (simp add: execute_begin_parsed case_prod_beta split: option.splits)
qed

lemma step_balanced:
  assumes "balanced sys"
  shows "balanced (step n JSON_parse w sys ev)"
proof (cases sys)
  case (Pair s pend)
  show ?thesis
  proof (cases ev)
    case (Call rj)
    show ?thesis
      using assms execute_begin_count [of n JSON_parse w rj s]
      by (cases "execute_begin n JSON_parse w rj s"; cases "fst (execute_begin n JSON_parse w rj s)")
         (simp_all add: Pair Call balanced_def)
  next
    case (Resume i)
    show ?thesis
      using assms
      by (auto simp: Pair Resume balanced_def execute_resume_count)
  qed
qed

lemma step_count_le:
  assumes "balanced sys"
  shows "executionCount (fst (step n JSON_parse w sys ev)) \<le> executionCount (fst sys) + 1"
    and "ev = Resume i \<Longrightarrow> executionCount (fst (step n JSON_parse w sys ev)) \<le> executionCount (fst sys)"
proof -
  obtain s pend where sys: "sys = (s, pend)" by (cases sys)
  show "executionCount (fst (step n JSON_parse w sys ev)) \<le> executionCount (fst sys) + 1"
  proof (cases ev)
    case (Call rj)
    show ?thesis
      using execute_begin_count [of n JSON_parse w rj s]
      by (cases "execute_begin n JSON_parse w rj s"; cases "fst (execute_begin n JSON_parse w rj s)")
         (simp_all add: sys Call)
  next
    case (Resume j)
    show ?thesis
      by (simp add: sys Resume execute_resume_count)
  qed
  show "executionCount (fst (step n JSON_parse w sys ev)) \<le> executionCount (fst sys)"
    if "ev = Resume i"
    using that by (simp add: sys execute_resume_count)
qed

lemma foldl_balanced:
  "balanced sys \<Longrightarrow> balanced (foldl (step n JSON_parse w) sys evs)"
  by (induction evs arbitrary: sys) (simp_all add: step_balanced)

lemma foldl_bounded:
  "balanced sys \<Longrightarrow> executionCount (fst sys) \<le> concurrency w \<Longrightarrow>
   dispatched n JSON_parse w sys evs \<Longrightarrow>
   executionCount (fst (foldl (step n JSON_parse w) sys evs)) \<le> concurrency w"
proof (induction evs arbitrary: sys)
  case Nil
  then show ?case by simp
next
  case (Cons ev evs)
  have b: "balanced (step n JSON_parse w sys ev)"
    using Cons.prems(1) by (rule step_balanced)
  have le: "executionCount (fst (step n JSON_parse w sys ev)) \<le> concurrency w"
  proof (cases ev)
    case (Call rj)
    with Cons.prems(3) have "executionCount (fst sys) < concurrency w"
      by (simp add: availableExecuters_def)
    with step_count_le(1) [OF Cons.prems(1), of n JSON_parse w ev] show ?thesis
      by simp
  next
    case (Resume i)
    with step_count_le(2) [OF Cons.prems(1) Resume, of n JSON_parse w] Cons.prems(2)
    show ?thesis by simp
  qed
  have d: "dispatched n JSON_parse w (step n JSON_parse w sys ev) evs"
    using Cons.prems(3) by (cases ev) simp_all
  from Cons.IH [OF b le d] show ?case by simp
qed

lemmas model_defs =
  execute_def execute_begin_def await_mode_def await_executer_def executeWithTimeout_def
  invoke_def emit_def run_catch_def run_finally_def decode_def init_state_def Let_def
  Worker_def no_options_def parse_empty_object_def execute_resume.simps
  job_ok_def job_timed_def job_malformed_def resolves_after_def never_settles_def
  always_failing_def fails_twice_def with_retries_def with_concurrency_def
  with_throwing_onSuccess_def with_throwing_onFailure_def with_throwing_onStart_def
  with_throwing_onCompletion_def resolves_to_def job_far_def
  timeoutError_def setTimeout_delay_def since_def

lemma always_failing_calls:
  assumes "\<And>k p. \<exists>d e. executer w k p = Rejects d e"
  shows "calls (snd (executeWithRetry n w jb r t k s)) = calls s + Suc n"
proof (induction n arbitrary: k s)
  case 0
  obtain d e where "executer w (calls s) (job_payload jb) = Rejects d e"
    using assms by blast
  then show ?case
    by (simp add: executeWithRetry.simps [of 0] invoke_def Let_def)
next
  case (Suc n)
  obtain d e where "executer w (calls s) (job_payload jb) = Rejects d e"
    using assms by blast
  then show ?case
    by (simp add: executeWithRetry.simps [of "Suc n"] invoke_def Let_def Suc.IH)
qed

section \<open>The examples, evaluated\<close>

lemma parse_examples:
  "parse_empty_object (raw_payload job_ok) = Inr ()"
  "parse_empty_object (raw_payload job_timed) = Inr ()"
  "parse_empty_object (raw_payload job_malformed) = Inl (SyntaxError ''Unexpected end of JSON input'')"
  by (simp_all add: parse_empty_object_def job_ok_def job_timed_def job_malformed_def)

lemma worker_fields:
  "retries (Worker nm h no_options) = 0"
  "concurrency (Worker nm h no_options) = 5"
  "retries (Worker nm h (with_retries r)) = r"
  "concurrency (Worker nm h (with_concurrency c)) = c"
  "retries (Worker nm h (with_concurrency c)) = 0"
  "executer (Worker nm h opts) = h"
  "onStart (Worker nm h no_options) = (\<lambda>j. None)"
  "onStart (Worker nm h (with_retries r)) = (\<lambda>j. None)"
  "onSuccess (Worker nm h no_options) = (\<lambda>j. None)"
  "onFailure (Worker nm h no_options) = (\<lambda>j e. None)"
  "onCompletion (Worker nm h no_options) = (\<lambda>j. None)"
  by (simp_all add: Worker_def no_options_def with_retries_def with_concurrency_def)

lemma plain_success_run:
  "execute n parse_empty_object (Worker ''w'' (resolves_after 5) no_options) job_ok init_state
     = (Returned, \<lparr>executionCount = 0, calls = 1,
          trace = [OnStart (decode job_ok ()), Invoked (), OnSuccess (decode job_ok ()),
                   OnCompletion (decode job_ok ())]\<rparr>)"
  by (simp add: model_defs)

lemma plain_failure_run:
  "execute n parse_empty_object (Worker ''w'' always_failing no_options) job_ok init_state
     = (Threw (Error ''boom''), \<lparr>executionCount = 0, calls = 1,
          trace = [OnStart (decode job_ok ()), Invoked (),
                   OnFailure (decode job_ok ()) (Error ''boom''),
                   OnCompletion (decode job_ok ())]\<rparr>)"
  by (simp add: model_defs)

lemma timeout_fast_run:
  "execute n parse_empty_object (Worker ''w'' (resolves_after 5) no_options) job_timed init_state
     = (Returned, \<lparr>executionCount = 0, calls = 1,
          trace = [OnStart (decode job_timed ()), TimerSet 50, Invoked (),
                   OnSuccess (decode job_timed ()), OnCompletion (decode job_timed ())]\<rparr>)"
  by (simp add: model_defs)

lemma timeout_slow_run:
  "execute n parse_empty_object (Worker ''w'' (resolves_after 200) no_options) job_timed init_state
     = (Threw (Error ''Job 8 timed out''), \<lparr>executionCount = 0, calls = 1,
          trace = [OnStart (decode job_timed ()), TimerSet 50, Invoked (),
                   OnFailure (decode job_timed ()) (Error ''Job 8 timed out''),
                   OnCompletion (decode job_timed ())]\<rparr>)"
  by (simp add: model_defs)

lemma throwing_onSuccess_run:
  "execute n parse_empty_object (Worker ''w'' (resolves_after 5) with_throwing_onSuccess) job_ok
       init_state
     = (Threw (Error ''late''), \<lparr>executionCount = 0, calls = 1,
          trace = [OnStart (decode job_ok ()), Invoked (), OnSuccess (decode job_ok ()),
                   OnFailure (decode job_ok ()) (Error ''late''),
                   OnCompletion (decode job_ok ())]\<rparr>)"
  by (simp add: model_defs)

lemma never_settling_run:
  "execute n parse_empty_object (Worker ''w'' never_settles no_options) job_ok init_state
     = (Suspended, \<lparr>executionCount = 1, calls = 1,
          trace = [OnStart (decode job_ok ()), Invoked ()]\<rparr>)"
  by (simp add: model_defs)

lemma malformed_run:
  "execute n parse_empty_object (Worker ''w'' h opts) job_malformed init_state
     = (Threw (SyntaxError ''Unexpected end of JSON input''), init_state)"
  by (simp add: execute_parse_failure parse_examples)

lemma two_calls_run:
  "run n parse_empty_object (Worker ''w'' never_settles (with_concurrency 1)) [Call job_ok, Call job_ok]
     = (\<lparr>executionCount = 2, calls = 2,
          trace = [OnStart (decode job_ok ()), Invoked (), OnStart (decode job_ok ()), Invoked ()]\<rparr>,
        [(decode job_ok (), Pending), (decode job_ok (), Pending)])"
  by (simp add: run_def model_defs)

lemma dispatched_run:
  "run n parse_empty_object (Worker ''w'' (resolves_after 5) (with_concurrency 2))
       [Call job_ok, Call job_ok, Resume 0]
     = (\<lparr>executionCount = 1, calls = 2,
          trace = [OnStart (decode job_ok ()), Invoked (), OnStart (decode job_ok ()), Invoked (),
                   OnSuccess (decode job_ok ()), OnCompletion (decode job_ok ())]\<rparr>,
        [(decode job_ok (), Fulfilled ())])"
  by (simp add: run_def model_defs)

lemma dispatched_example:
  "dispatched n parse_empty_object (Worker ''w'' (resolves_after 5) (with_concurrency 2))
       (init_state, []) [Call job_ok, Call job_ok, Resume 0]"
  by (simp add: model_defs availableExecuters_def)

lemma init_state_simps:
  "executionCount init_state = 0" "calls init_state = 0" "trace init_state = []"
  by (simp_all add: init_state_def)

lemma execute_suspended_iff:
  assumes "JSON_parse (raw_payload rj) = Inr p"
  shows "fst (execute n JSON_parse w rj s) = Suspended \<longleftrightarrow>
     onStart w (decode rj p) = None
     \<and> fst (await_mode n w (decode rj p) (raw_timeout rj) (entered (decode rj p) s)) = Pending"
proof (cases "onStart w (decode rj p)")
  case (Some e)
  with assms show ?thesis
    by (simp add: execute_parsed run_finally_fst run_catch_fst split: option.splits)
next
  case None
  with assms show ?thesis
    by (cases "fst (await_mode n w (decode rj p) (raw_timeout rj) (entered (decode rj p) s))")
       (simp_all add: execute_parsed execute_resume_fst split: option.splits)
qed

lemma parsed_timeout_run:
  assumes r: "retries w = 0" and t: "0 < raw_timeout rj"
      and p: "JSON_parse (raw_payload rj) = Inr p"
      and st: "onStart w (decode rj p) = None"
  shows "execute n JSON_parse w rj s =
      execute_resume w (decode rj p)
        (void (race (decode rj p) (raw_timeout rj) (executer w (calls s) p)))
        (s\<lparr>executionCount := executionCount s + 1, calls := Suc (calls s),
           trace := trace s @ [OnStart (decode rj p), TimerSet (raw_timeout rj), Invoked p]\<rparr>)"
  using r t p st
  by (simp add: execute_def execute_begin_def await_mode_def executeWithTimeout_def invoke_def
      emit_def Let_def)

lemma executeWithRetry_events:
  "\<exists>k\<le>n. trace (snd (executeWithRetry n w jb r t c s)) = trace s @ retry_events (job_payload jb) t k
        \<or> trace (snd (executeWithRetry n w jb r t c s))
             = trace s @ retry_events (job_payload jb) t k @ [Waited t]"
proof (induction n arbitrary: c s)
  case 0
  show ?case
    by (simp add: executeWithRetry.simps [of 0] invoke_def Let_def split: settle.splits)
next
  case (Suc n)
  show ?case
  proof (cases "executer w (calls s) (job_payload jb)")
    case (Rejects d reason)
    let ?s2 = "emit (Waited t) (snd (invoke w (job_payload jb) s))"
    let ?s' = "snd (executeWithRetry n w jb r t (Suc c) ?s2)"
    from Suc.IH [of "Suc c" ?s2] obtain k where k: "k \<le> n"
      "trace ?s' = trace ?s2 @ retry_events (job_payload jb) t k
       \<or> trace ?s' = trace ?s2 @ retry_events (job_payload jb) t k @ [Waited t]"
      by blast
    have same: "snd (executeWithRetry (Suc n) w jb r t c s) = ?s'"
      using Rejects by (simp add: executeWithRetry.simps [of "Suc n"] invoke_def Let_def)
    from k(2) have "trace ?s' = trace s @ retry_events (job_payload jb) t (Suc k)
       \<or> trace ?s' = trace s @ retry_events (job_payload jb) t (Suc k) @ [Waited t]"
      by simp
    with k(1) same show ?thesis
      by (metis Suc_le_mono)
  next
    case (Resolves d v)
    then have "trace (snd (executeWithRetry (Suc n) w jb r t c s))
        = trace s @ retry_events (job_payload jb) t 0"
      by (simp add: executeWithRetry.simps [of "Suc n"] invoke_def Let_def)
    then show ?thesis by blast
  next
    case (Throws e)
    then have "trace (snd (executeWithRetry (Suc n) w jb r t c s))
        = trace s @ retry_events (job_payload jb) t 0"
      by (simp add: executeWithRetry.simps [of "Suc n"] invoke_def Let_def)
    then show ?thesis by blast
  next
    case NeverSettles
    then have "trace (snd (executeWithRetry (Suc n) w jb r t c s))
        = trace s @ retry_events (job_payload jb) t 0"
      by (simp add: executeWithRetry.simps [of "Suc n"] invoke_def Let_def)
    then show ?thesis by blast
  qed
qed

lemma executeWithRetry_second_attempt:
  assumes "executer w (calls s) (job_payload jb) = Rejects d e"
  shows "\<exists>rest. trace (snd (executeWithRetry (Suc n) w jb r t c s))
           = trace s @ [Invoked (job_payload jb), Waited t, Invoked (job_payload jb)] @ rest"
proof -
  let ?s2 = "emit (Waited t) (snd (invoke w (job_payload jb) s))"
  obtain evs where "trace (snd (executeWithRetry n w jb r t (Suc c) ?s2))
      = trace ?s2 @ Invoked (job_payload jb) # evs"
    using executeWithRetry_first [of n w jb r t "Suc c" ?s2] by auto
  with assms show ?thesis
    by (simp add: executeWithRetry.simps [of "Suc n"] invoke_def Let_def)
qed

lemma show_nat_1: "show_nat (Suc 0) = ''1''"
proof -
  have "char_of (49::nat) = CHR ''1''"
    by code_simp
  then show ?thesis
    by (simp add: show_nat.simps)
qed

lemma timeout_value_run:
  "execute n parse_empty_object (Worker ''w'' (resolves_to v 5) no_options) job_timed init_state
     = (Returned, \<lparr>executionCount = 0, calls = 1,
          trace = [OnStart (decode job_timed ()), TimerSet 50, Invoked (),
                   OnSuccess (decode job_timed ()), OnCompletion (decode job_timed ())]\<rparr>)"
  by (simp add: model_defs)

lemma timeout_far_run:
  "execute n parse_empty_object (Worker ''w'' (resolves_after 5) no_options) job_far init_state
     = (Threw (Error ''Job 6 timed out''), \<lparr>executionCount = 0, calls = 1,
          trace = [OnStart (decode job_far ()), TimerSet 2147483648, Invoked (),
                   OnFailure (decode job_far ()) (Error ''Job 6 timed out''),
                   OnCompletion (decode job_far ())]\<rparr>)"
  by (simp add: model_defs)

lemma timeout_throwing_onFailure_run:
  "execute n parse_empty_object (Worker ''w'' (resolves_after 200) with_throwing_onFailure)
       job_timed init_state
     = (Threw (Error ''late''), \<lparr>executionCount = 0, calls = 1,
          trace = [OnStart (decode job_timed ()), TimerSet 50, Invoked (),
                   OnFailure (decode job_timed ()) (Error ''Job 8 timed out''),
                   OnCompletion (decode job_timed ())]\<rparr>)"
  by (simp add: model_defs)

lemma timeout_throwing_onSuccess_run:
  "execute n parse_empty_object (Worker ''w'' (resolves_after 5) with_throwing_onSuccess)
       job_timed init_state
     = (Threw (Error ''late''), \<lparr>executionCount = 0, calls = 1,
          trace = [OnStart (decode job_timed ()), TimerSet 50, Invoked (),
                   OnSuccess (decode job_timed ()),
                   OnFailure (decode job_timed ()) (Error ''late''),
                   OnCompletion (decode job_timed ())]\<rparr>)"
  by (simp add: model_defs)

lemma timeout_throwing_onCompletion_run:
  "execute n parse_empty_object (Worker ''w'' (resolves_after 5) with_throwing_onCompletion)
       job_timed init_state
     = (Threw (Error ''last''), \<lparr>executionCount = 0, calls = 1,
          trace = [OnStart (decode job_timed ()), TimerSet 50, Invoked (),
                   OnSuccess (decode job_timed ()), OnCompletion (decode job_timed ())]\<rparr>)"
  by (simp add: model_defs)

lemma timeout_throwing_onStart_run:
  "execute n parse_empty_object (Worker ''w'' (resolves_after 5) with_throwing_onStart)
       job_timed init_state
     = (Threw (Error ''early''), \<lparr>executionCount = 0, calls = 0,
          trace = [OnStart (decode job_timed ()),
                   OnFailure (decode job_timed ()) (Error ''early''),
                   OnCompletion (decode job_timed ())]\<rparr>)"
  by (simp add: model_defs)

lemma plain_failure_promise:
  "fst (await_mode n (Worker ''w'' always_failing no_options) (decode job_ok ())
         (raw_timeout job_ok) (entered (decode job_ok ()) init_state))
     = Rejected (Error ''boom'')"
  by (simp add: await_mode_def worker_fields job_ok_def await_executer_fst always_failing_def
      case_prod_beta)

section \<open>The claims\<close>

text \<open>
  C1, at the input the specification tests: two retries and a handler that fails on every
  invocation. The claim expects at most three invocations, a final error naming two retries,
  and \<open>onFailure\<close> and \<open>onCompletion\<close> once each. What \<open>execute\<close> does there: however
  many of the retry continuations are followed, the call is still suspended, the handler has
  been invoked once more than that number, and \<open>onStart\<close> is the only callback that ran.
\<close>

theorem always_failing_retry_never_settles:
  "fst (execute n parse_empty_object (Worker ''w'' always_failing (with_retries 2)) job_timed
         init_state) = Suspended
   \<and> calls (snd (execute n parse_empty_object (Worker ''w'' always_failing (with_retries 2))
         job_timed init_state)) = Suc n
   \<and> callbacks (trace (snd (execute n parse_empty_object
         (Worker ''w'' always_failing (with_retries 2)) job_timed init_state)))
       = [OnStart (decode job_timed ())]"
proof -
  let ?w = "Worker ''w'' always_failing (with_retries 2)"
  let ?jb = "decode job_timed ()"
  let ?s1 = "entered ?jb init_state"
  have p: "parse_empty_object (raw_payload job_timed) = Inr ()"
    by (simp add: parse_empty_object_def job_timed_def)
  have st: "onStart ?w ?jb = None"
    by (simp add: Worker_def with_retries_def no_options_def)
  have m: "await_mode n ?w ?jb (raw_timeout job_timed) ?s1
      = executeWithRetry n ?w ?jb 2 50 0 ?s1"
    by (simp add: await_mode_def Worker_def with_retries_def no_options_def job_timed_def)
  have pend: "fst (executeWithRetry n ?w ?jb 2 50 0 ?s1) = Pending"
    by (simp add: executeWithRetry_fst Worker_def always_failing_def)
  have ex: "execute n parse_empty_object ?w job_timed init_state
      = (Suspended, snd (executeWithRetry n ?w ?jb 2 50 0 ?s1))"
    using p st m pend
    by (simp add: execute_parsed [where p = "()"] prod_eq_iff)
  have c: "calls (snd (executeWithRetry n ?w ?jb 2 50 0 ?s1)) = Suc n"
    by (subst always_failing_calls) (simp_all add: Worker_def always_failing_def init_state_def)
  obtain evs where "trace (snd (executeWithRetry n ?w ?jb 2 50 0 ?s1)) = trace ?s1 @ evs"
      "callbacks evs = []"
    using executeWithRetry_trace [of n ?w ?jb 2 50 0 ?s1] by blast
  then have "callbacks (trace (snd (executeWithRetry n ?w ?jb 2 50 0 ?s1))) = [OnStart ?jb]"
    by (simp add: init_state_def)
  with ex c show ?thesis by simp
qed

text \<open>
  C2, at the input the specification tests: two retries and a handler that fails twice and
  then succeeds. The claim expects \<open>execute\<close> to resolve and \<open>onSuccess\<close> to run. What
  \<open>execute\<close> does there: the handler is invoked three times, with a wait before the second
  and the third invocation, but the call stays suspended, the counter stays raised and no
  callback after \<open>onStart\<close> runs.
\<close>

theorem fails_twice_retry_never_resolves:
  "fst (execute n parse_empty_object (Worker ''w'' fails_twice (with_retries 2)) job_timed
         init_state) = Suspended
   \<and> calls (snd (execute (Suc (Suc n)) parse_empty_object (Worker ''w'' fails_twice (with_retries 2))
         job_timed init_state)) = 3
   \<and> trace (snd (execute (Suc (Suc n)) parse_empty_object
         (Worker ''w'' fails_twice (with_retries 2)) job_timed init_state))
       = [OnStart (decode job_timed ()), Invoked (), Waited 50, Invoked (), Waited 50, Invoked ()]
   \<and> executionCount (snd (execute (Suc (Suc n)) parse_empty_object
         (Worker ''w'' fails_twice (with_retries 2)) job_timed init_state)) = 1"
proof -
  let ?w = "Worker ''w'' fails_twice (with_retries 2)"
  let ?jb = "decode job_timed ()"
  let ?s1 = "entered ?jb init_state"
  have p: "parse_empty_object (raw_payload job_timed) = Inr ()"
    by (simp add: parse_empty_object_def job_timed_def)
  have st: "onStart ?w ?jb = None"
    by (simp add: Worker_def with_retries_def no_options_def)
  have m: "await_mode k ?w ?jb (raw_timeout job_timed) ?s1
      = executeWithRetry k ?w ?jb 2 50 0 ?s1" for k
    by (simp add: await_mode_def Worker_def with_retries_def no_options_def job_timed_def)
  have pend: "fst (executeWithRetry k ?w ?jb 2 50 0 ?s1) = Pending" for k
    by (simp add: executeWithRetry_fst Worker_def fails_twice_def init_state_def)
  have ex: "execute k parse_empty_object ?w job_timed init_state
      = (Suspended, snd (executeWithRetry k ?w ?jb 2 50 0 ?s1))" for k
    using p st m [of k] pend [of k]
    by (simp add: execute_parsed [where p = "()"] prod_eq_iff)
  have run: "snd (executeWithRetry (Suc (Suc n)) ?w ?jb 2 50 0 ?s1)
      = \<lparr>executionCount = 1, calls = 3,
         trace = [OnStart ?jb, Invoked (), Waited 50, Invoked (), Waited 50, Invoked ()]\<rparr>"
  proof -
    have h: "executer ?w = fails_twice"
      by (simp add: Worker_def)
    show ?thesis
      by (simp add: executeWithRetry.simps invoke_def emit_def entered_def
          init_state_def h fails_twice_def Let_def)
  qed
  show ?thesis
    by (simp add: ex run)
qed

text \<open>
  C3, amended. Under every interleaving of calls the counter equals the number of suspended
  calls, so it is never negative. It stays at or below \<open>concurrency\<close>, and the available
  capacity within \<open>0\<close> and \<open>concurrency\<close>, when the caller starts a call only while an
  executer is available; \<open>execute\<close> itself does not check. \<open>isBusy\<close> holds exactly when
  the counter equals \<open>concurrency\<close>.
\<close>

theorem capacity_counter_invariant:
  assumes "0 \<le> concurrency w"
  shows "0 \<le> executionCount (fst (run n JSON_parse w evs))
       \<and> executionCount (fst (run n JSON_parse w evs)) = int (length (snd (run n JSON_parse w evs)))
       \<and> (dispatched n JSON_parse w (init_state, []) evs \<longrightarrow>
            executionCount (fst (run n JSON_parse w evs)) \<le> concurrency w
            \<and> 0 \<le> availableExecuters w (fst (run n JSON_parse w evs))
            \<and> availableExecuters w (fst (run n JSON_parse w evs)) \<le> concurrency w)
       \<and> (isBusy w (fst (run n JSON_parse w evs))
            \<longleftrightarrow> executionCount (fst (run n JSON_parse w evs)) = concurrency w)"
proof -
  have b0: "balanced ((init_state, []) :: 'a system)"
    by (simp add: balanced_def init_state_def)
  have b: "balanced (run n JSON_parse w evs)"
    unfolding run_def using b0 by (rule foldl_balanced)
  have le: "executionCount (fst (run n JSON_parse w evs)) \<le> concurrency w"
    if "dispatched n JSON_parse w (init_state, []) evs"
    unfolding run_def using b0 _ that
    by (rule foldl_bounded) (simp add: init_state_def assms)
  from b le show ?thesis
    by (auto simp: balanced_def availableExecuters_def isBusy_def)
qed

text \<open>
  C3, an instance: a worker with two executers, two calls started and the first one
  finished.
\<close>

theorem capacity_counter_invariant_witness:
  "0 \<le> concurrency (Worker ''w'' (resolves_after 5) (with_concurrency 2))
   \<and> dispatched 0 parse_empty_object (Worker ''w'' (resolves_after 5) (with_concurrency 2))
        (init_state, []) [Call job_ok, Call job_ok, Resume 0]
   \<and> executionCount (fst (run 0 parse_empty_object
        (Worker ''w'' (resolves_after 5) (with_concurrency 2)) [Call job_ok, Call job_ok, Resume 0])) = 1
   \<and> 0 \<le> availableExecuters (Worker ''w'' (resolves_after 5) (with_concurrency 2))
        (fst (run 0 parse_empty_object (Worker ''w'' (resolves_after 5) (with_concurrency 2))
           [Call job_ok, Call job_ok, Resume 0]))
   \<and> availableExecuters (Worker ''w'' (resolves_after 5) (with_concurrency 2))
        (fst (run 0 parse_empty_object (Worker ''w'' (resolves_after 5) (with_concurrency 2))
           [Call job_ok, Call job_ok, Resume 0]))
      \<le> concurrency (Worker ''w'' (resolves_after 5) (with_concurrency 2))"
proof -
  let ?w = "Worker ''w'' (resolves_after 5) (with_concurrency 2)"
  have c: "0 \<le> concurrency ?w"
    by (simp add: worker_fields)
  from capacity_counter_invariant
         [where w = ?w and n = 0 and JSON_parse = parse_empty_object
            and evs = "[Call job_ok, Call job_ok, Resume 0]", OF c]
       dispatched_example [of 0]
  show ?thesis
    by (simp add: worker_fields dispatched_run)
qed

text \<open>
  C3 as stated fails: on a worker with one executer, two calls of \<open>execute\<close> in a row
  leave the counter at two.
\<close>

theorem capacity_exceeded_counterexample:
  "\<not> executionCount (fst (run 0 parse_empty_object
        (Worker ''w'' never_settles (with_concurrency 1)) [Call job_ok, Call job_ok]))
      \<le> concurrency (Worker ''w'' never_settles (with_concurrency 1))"
  by (simp add: two_calls_run worker_fields)

text \<open>
  C4, amended. A payload that does not parse is fatal for the call: \<open>execute\<close> rejects with
  the parse error, the handler is not invoked at all (so nothing is retried), and no
  lifecycle callback runs, neither \<open>onFailure\<close> nor \<open>onCompletion\<close>.
\<close>

theorem parse_failure_is_fatal:
  assumes "JSON_parse (raw_payload rj) = Inl e"
  shows "fst (execute n JSON_parse w rj s) = Threw e
       \<and> calls (snd (execute n JSON_parse w rj s)) = calls s
       \<and> callbacks (since s (snd (execute n JSON_parse w rj s))) = []"
  using assms by (simp add: execute_parse_failure since_def)

text \<open>
  C4, an instance: a malformed payload on a worker with two retries and a failing handler.
\<close>

theorem parse_failure_is_fatal_witness:
  "parse_empty_object (raw_payload job_malformed) = Inl (SyntaxError ''Unexpected end of JSON input'')
   \<and> fst (execute 3 parse_empty_object (Worker ''w'' always_failing (with_retries 2)) job_malformed
         init_state) = Threw (SyntaxError ''Unexpected end of JSON input'')
   \<and> calls (snd (execute 3 parse_empty_object (Worker ''w'' always_failing (with_retries 2))
         job_malformed init_state)) = 0
   \<and> callbacks (since init_state (snd (execute 3 parse_empty_object
         (Worker ''w'' always_failing (with_retries 2)) job_malformed init_state))) = []"
  using parse_failure_is_fatal
          [where JSON_parse = parse_empty_object and rj = job_malformed and n = 3
             and w = "Worker ''w'' always_failing (with_retries 2)"
             and s = init_state, OF parse_examples(3)]
  by (simp add: parse_examples init_state_simps)

text \<open>
  C4 as stated fails: for a malformed payload \<open>execute\<close> rejects and the trace of events
  stays empty, so neither the failure nor the completion callback was invoked.
\<close>

theorem parse_failure_skips_callbacks_counterexample:
  "fst (execute 0 parse_empty_object (Worker ''w'' (resolves_after 5) no_options) job_malformed
         init_state) = Threw (SyntaxError ''Unexpected end of JSON input'')
   \<and> trace (snd (execute 0 parse_empty_object (Worker ''w'' (resolves_after 5) no_options)
         job_malformed init_state)) = []"
  by (simp add: malformed_run init_state_simps)

text \<open>
  C5, amended. For every call whose payload parses and whose awaited promise settles (or
  whose \<open>onStart\<close> throws, so that nothing is awaited), whatever the handler and the
  callbacks do: the call settles, the counter is back at its value before the call,
  \<open>onCompletion\<close> is the last event and runs once, and the callbacks of the call are
  \<open>onStart\<close>, then \<open>onSuccess\<close> or \<open>onFailure\<close>, then \<open>onCompletion\<close>; both
  \<open>onSuccess\<close> and \<open>onFailure\<close> run, in this order, exactly when \<open>onSuccess\<close> throws.
  A payload that does not parse triggers no callback and leaves the counter alone; while
  the awaited promise is pending the call is suspended with the counter raised, and nothing
  after \<open>onStart\<close> runs.
\<close>

theorem lifecycle_of_a_call:
  "(JSON_parse (raw_payload rj) = Inl e \<longrightarrow> execute n JSON_parse w rj s = (Threw e, s))
   \<and> (JSON_parse (raw_payload rj) = Inr p \<longrightarrow>
        (onStart w (decode rj p) = None
           \<and> fst (await_mode n w (decode rj p) (raw_timeout rj) (entered (decode rj p) s)) = Pending
         \<longrightarrow> fst (execute n JSON_parse w rj s) = Suspended
             \<and> executionCount (snd (execute n JSON_parse w rj s)) = executionCount s + 1
             \<and> callbacks (since s (snd (execute n JSON_parse w rj s))) = [OnStart (decode rj p)])
      \<and> (onStart w (decode rj p) \<noteq> None
           \<or> fst (await_mode n w (decode rj p) (raw_timeout rj) (entered (decode rj p) s)) \<noteq> Pending
         \<longrightarrow> fst (execute n JSON_parse w rj s) \<noteq> Suspended
             \<and> executionCount (snd (execute n JSON_parse w rj s)) = executionCount s
             \<and> last (trace (snd (execute n JSON_parse w rj s))) = OnCompletion (decode rj p)
             \<and> callbacks (since s (snd (execute n JSON_parse w rj s))) =
                 (case onStart w (decode rj p) of
                    Some x \<Rightarrow> [OnStart (decode rj p), OnFailure (decode rj p) x,
                               OnCompletion (decode rj p)]
                  | None \<Rightarrow>
                     (case fst (await_mode n w (decode rj p) (raw_timeout rj)
                                 (entered (decode rj p) s)) of
                        Pending \<Rightarrow> [OnStart (decode rj p)]
                      | Rejected x \<Rightarrow> [OnStart (decode rj p), OnFailure (decode rj p) x,
                                       OnCompletion (decode rj p)]
                      | Fulfilled u \<Rightarrow>
                         (case onSuccess w (decode rj p) of
                            None \<Rightarrow> [OnStart (decode rj p), OnSuccess (decode rj p),
                                      OnCompletion (decode rj p)]
                          | Some x \<Rightarrow> [OnStart (decode rj p), OnSuccess (decode rj p),
                                       OnFailure (decode rj p) x, OnCompletion (decode rj p)])))
             \<and> ((OnSuccess (decode rj p) \<in> set (since s (snd (execute n JSON_parse w rj s)))
                  \<and> (\<exists>x. OnFailure (decode rj p) x
                          \<in> set (since s (snd (execute n JSON_parse w rj s)))))
                \<longleftrightarrow> (onStart w (decode rj p) = None
                     \<and> fst (await_mode n w (decode rj p) (raw_timeout rj)
                              (entered (decode rj p) s)) = Fulfilled ()
                     \<and> onSuccess w (decode rj p) \<noteq> None))))"
proof -
  have a: "execute n JSON_parse w rj s = (Threw e, s)" if "JSON_parse (raw_payload rj) = Inl e"
    using that by (rule execute_parse_failure)
  have b: "fst (execute n JSON_parse w rj s) = Suspended
       \<and> executionCount (snd (execute n JSON_parse w rj s)) = executionCount s + 1
       \<and> callbacks (since s (snd (execute n JSON_parse w rj s))) = [OnStart (decode rj p)]"
    if p: "JSON_parse (raw_payload rj) = Inr p" and st: "onStart w (decode rj p) = None"
      and pend: "fst (await_mode n w (decode rj p) (raw_timeout rj) (entered (decode rj p) s)) = Pending"
  proof -
    obtain evs where "trace (snd (execute n JSON_parse w rj s)) = trace s @ evs"
        "callbacks evs = [OnStart (decode rj p)]"
      using execute_callbacks [where JSON_parse = JSON_parse and rj = rj and p = p and n = n
        and w = w and s = s] p st pend by auto
    then have "callbacks (since s (snd (execute n JSON_parse w rj s))) = [OnStart (decode rj p)]"
      by simp
    with p st pend show ?thesis
      by (simp add: execute_parsed)
  qed
  have c: "fst (execute n JSON_parse w rj s) \<noteq> Suspended
       \<and> executionCount (snd (execute n JSON_parse w rj s)) = executionCount s
       \<and> last (trace (snd (execute n JSON_parse w rj s))) = OnCompletion (decode rj p)
       \<and> callbacks (since s (snd (execute n JSON_parse w rj s))) =
                 (case onStart w (decode rj p) of
                    Some x \<Rightarrow> [OnStart (decode rj p), OnFailure (decode rj p) x,
                               OnCompletion (decode rj p)]
                  | None \<Rightarrow>
                     (case fst (await_mode n w (decode rj p) (raw_timeout rj)
                                 (entered (decode rj p) s)) of
                        Pending \<Rightarrow> [OnStart (decode rj p)]
                      | Rejected x \<Rightarrow> [OnStart (decode rj p), OnFailure (decode rj p) x,
                                       OnCompletion (decode rj p)]
                      | Fulfilled u \<Rightarrow>
                         (case onSuccess w (decode rj p) of
                            None \<Rightarrow> [OnStart (decode rj p), OnSuccess (decode rj p),
                                      OnCompletion (decode rj p)]
                          | Some x \<Rightarrow> [OnStart (decode rj p), OnSuccess (decode rj p),
                                       OnFailure (decode rj p) x, OnCompletion (decode rj p)])))
       \<and> ((OnSuccess (decode rj p) \<in> set (since s (snd (execute n JSON_parse w rj s)))
                  \<and> (\<exists>x. OnFailure (decode rj p) x
                          \<in> set (since s (snd (execute n JSON_parse w rj s)))))
                \<longleftrightarrow> (onStart w (decode rj p) = None
                     \<and> fst (await_mode n w (decode rj p) (raw_timeout rj)
                              (entered (decode rj p) s)) = Fulfilled ()
                     \<and> onSuccess w (decode rj p) \<noteq> None))"
    if p: "JSON_parse (raw_payload rj) = Inr p"
      and set: "onStart w (decode rj p) \<noteq> None
           \<or> fst (await_mode n w (decode rj p) (raw_timeout rj) (entered (decode rj p) s)) \<noteq> Pending"
  proof -
    let ?jb = "decode rj p"
    let ?s' = "snd (execute n JSON_parse w rj s)"
    let ?m = "await_mode n w ?jb (raw_timeout rj) (entered ?jb s)"
    have ns: "fst (execute n JSON_parse w rj s) \<noteq> Suspended"
      using execute_suspended_iff [where JSON_parse = JSON_parse and rj = rj and p = p and n = n
        and w = w and s = s] p set by blast
    obtain evs where evs: "trace ?s' = trace s @ evs"
      and cb: "callbacks evs =
         (case onStart w ?jb of
            Some e \<Rightarrow> [OnStart ?jb, OnFailure ?jb e, OnCompletion ?jb]
          | None \<Rightarrow>
             (case fst ?m of
                Pending \<Rightarrow> [OnStart ?jb]
              | Fulfilled v \<Rightarrow>
                  (case onSuccess w ?jb of
                     None \<Rightarrow> [OnStart ?jb, OnSuccess ?jb, OnCompletion ?jb]
                   | Some e \<Rightarrow> [OnStart ?jb, OnSuccess ?jb, OnFailure ?jb e, OnCompletion ?jb])
              | Rejected e \<Rightarrow> [OnStart ?jb, OnFailure ?jb e, OnCompletion ?jb]))"
      using execute_callbacks [where JSON_parse = JSON_parse and rj = rj and p = p and n = n
          and w = w and s = s, OF p] by blast
    have since: "since s ?s' = evs"
      using evs by simp
    have mem: "x \<in> set evs \<longleftrightarrow> x \<in> set (callbacks evs)"
      if "is_callback x" for x
      using that by (simp add: callbacks_def)
    have cbs: "is_callback (OnSuccess ?jb)" "is_callback (OnFailure ?jb x)" for x
      by (simp_all add: is_callback_def)
    have iff: "(OnSuccess ?jb \<in> set evs \<and> (\<exists>x. OnFailure ?jb x \<in> set evs))
        \<longleftrightarrow> (onStart w ?jb = None \<and> fst ?m = Fulfilled () \<and> onSuccess w ?jb \<noteq> None)"
      unfolding mem [OF cbs(1)] mem [OF cbs(2)] cb
      by (cases "onStart w ?jb"; cases "fst ?m"; cases "onSuccess w ?jb") auto
    have cb': "callbacks evs =
         (case onStart w ?jb of
            Some x \<Rightarrow> [OnStart ?jb, OnFailure ?jb x, OnCompletion ?jb]
          | None \<Rightarrow>
             (case fst ?m of
                Pending \<Rightarrow> [OnStart ?jb]
              | Rejected x \<Rightarrow> [OnStart ?jb, OnFailure ?jb x, OnCompletion ?jb]
              | Fulfilled u \<Rightarrow>
                  (case onSuccess w ?jb of
                     None \<Rightarrow> [OnStart ?jb, OnSuccess ?jb, OnCompletion ?jb]
                   | Some x \<Rightarrow> [OnStart ?jb, OnSuccess ?jb, OnFailure ?jb x, OnCompletion ?jb])))"
      using cb by (simp split: option.splits promise.splits)
    from ns execute_count [where JSON_parse = JSON_parse and rj = rj and p = p and n = n
          and w = w and s = s, OF p ns]
        execute_last [where JSON_parse = JSON_parse and rj = rj and p = p and n = n
          and w = w and s = s, OF p ns]
        cb' iff
    show ?thesis
      unfolding since by (intro conjI)
  qed
  show ?thesis
    apply (rule conjI)
     apply (rule impI, erule a)
    apply (rule impI, rule conjI)
     apply (rule impI, erule conjE, rule b, assumption+)
    apply (rule impI, rule c, assumption+)
    done
qed

text \<open>
  C5, an instance: a handler that fails in plain mode.
\<close>

theorem lifecycle_of_a_call_witness:
  "parse_empty_object (raw_payload job_ok) = Inr ()
   \<and> fst (await_mode 0 (Worker ''w'' always_failing no_options) (decode job_ok ())
         (raw_timeout job_ok) (entered (decode job_ok ()) init_state)) \<noteq> Pending
   \<and> fst (execute 0 parse_empty_object (Worker ''w'' always_failing no_options) job_ok init_state)
       \<noteq> Suspended
   \<and> executionCount (snd (execute 0 parse_empty_object (Worker ''w'' always_failing no_options)
         job_ok init_state)) = executionCount (init_state :: unit wstate)
   \<and> last (trace (snd (execute 0 parse_empty_object (Worker ''w'' always_failing no_options)
         job_ok init_state))) = OnCompletion (decode job_ok ())
   \<and> callbacks (since init_state (snd (execute 0 parse_empty_object
         (Worker ''w'' always_failing no_options) job_ok init_state)))
       = [OnStart (decode job_ok ()), OnFailure (decode job_ok ()) (Error ''boom''),
          OnCompletion (decode job_ok ())]"
proof -
  let ?w = "Worker ''w'' always_failing no_options :: (unit, nat) worker"
  let ?m = "await_mode 0 ?w (decode job_ok ()) (raw_timeout job_ok)
              (entered (decode job_ok ()) init_state)"
  have pr: "fst ?m = Rejected (Error ''boom'')"
    by (rule plain_failure_promise)
  then have settled: "onStart ?w (decode job_ok ()) \<noteq> None \<or> fst ?m \<noteq> Pending"
    by simp
  note th = lifecycle_of_a_call
      [where JSON_parse = parse_empty_object and rj = job_ok and p = "()" and n = 0
         and w = ?w and s = init_state, THEN conjunct2, rule_format, OF parse_examples(1),
       THEN conjunct2, rule_format, OF settled]
  from th pr show ?thesis
    by (simp add: parse_examples worker_fields)
qed

text \<open>
  C5 as stated fails in three ways: a malformed payload triggers no callback at all; an
  \<open>onSuccess\<close> that throws is followed by \<open>onFailure\<close>; and while the handler's promise
  never settles the counter stays raised and \<open>onCompletion\<close> does not run.
\<close>

theorem lifecycle_counterexample:
  "trace (snd (execute 0 parse_empty_object (Worker ''w'' (resolves_after 5) with_throwing_onSuccess)
         job_malformed init_state)) = []
   \<and> callbacks (trace (snd (execute 0 parse_empty_object
         (Worker ''w'' (resolves_after 5) with_throwing_onSuccess) job_ok init_state)))
       = [OnStart (decode job_ok ()), OnSuccess (decode job_ok ()),
          OnFailure (decode job_ok ()) (Error ''late''), OnCompletion (decode job_ok ())]
   \<and> execute 0 parse_empty_object (Worker ''w'' never_settles no_options) job_ok init_state
       = (Suspended, \<lparr>executionCount = 1, calls = 1,
            trace = [OnStart (decode job_ok ()), Invoked ()]\<rparr>)"
  by (simp add: malformed_run throwing_onSuccess_run never_settling_run init_state_simps
      del: One_nat_def)

text \<open>
  C6, amended. In timeout-only mode (no retries, a positive timeout within the range of
  \<open>setTimeout\<close>), with callbacks that do not throw: when the handler's promise fulfils
  before the timer, \<open>execute\<close> returns, without a value, after \<open>onSuccess\<close>, and no timeout
  error is raised; when it rejects before the timer, \<open>execute\<close> fails with its reason; when
  the timer comes first, or the handler never settles, \<open>execute\<close> fails with the error
  \<open>Job <id> timed out\<close> after passing it to \<open>onFailure\<close>, whatever the handler's promise
  does later. In each case the handler has been invoked exactly once, after the timer was
  set, and the counter is back at its value before the call.
\<close>

theorem timeout_only_race:
  assumes r: "retries w = 0" and t: "0 < raw_timeout rj" "raw_timeout rj \<le> 2147483647"
      and p: "JSON_parse (raw_payload rj) = Inr p"
      and cb: "onStart w (decode rj p) = None" "onSuccess w (decode rj p) = None"
        "\<And>x. onFailure w (decode rj p) x = None" "onCompletion w (decode rj p) = None"
  shows "(executer w (calls s) p = Resolves d v \<and> int d < raw_timeout rj \<longrightarrow>
            execute n JSON_parse w rj s =
              (Returned,
               s\<lparr>calls := Suc (calls s),
                 trace := trace s @ [OnStart (decode rj p), TimerSet (raw_timeout rj), Invoked p,
                                     OnSuccess (decode rj p), OnCompletion (decode rj p)]\<rparr>))
       \<and> (executer w (calls s) p = Rejects d x \<and> int d < raw_timeout rj \<longrightarrow>
            execute n JSON_parse w rj s =
              (Threw x,
               s\<lparr>calls := Suc (calls s),
                 trace := trace s @ [OnStart (decode rj p), TimerSet (raw_timeout rj), Invoked p,
                                     OnFailure (decode rj p) x, OnCompletion (decode rj p)]\<rparr>))
       \<and> ((executer w (calls s) p = Resolves d v \<or> executer w (calls s) p = Rejects d x)
              \<and> raw_timeout rj < int d
            \<or> executer w (calls s) p = NeverSettles \<longrightarrow>
            execute n JSON_parse w rj s =
              (Threw (Error (''Job '' @ raw_id rj @ '' timed out'')),
               s\<lparr>calls := Suc (calls s),
                 trace := trace s @ [OnStart (decode rj p), TimerSet (raw_timeout rj), Invoked p,
                                     OnFailure (decode rj p)
                                       (Error (''Job '' @ raw_id rj @ '' timed out'')),
                                     OnCompletion (decode rj p)]\<rparr>))"
proof -
  have d: "setTimeout_delay (raw_timeout rj) = raw_timeout rj"
    using t by (simp add: setTimeout_delay_def)
  note ex = parsed_timeout_run [where JSON_parse = JSON_parse and n = n and s = s, OF r t(1) p cb(1)]
  show ?thesis
    using cb
    by (auto simp: ex d execute_resume.simps run_finally_def run_catch_def emit_def Let_def
        timeoutError_def)
qed

text \<open>
  C6, two instances with a timeout of 50: a handler that needs 5 and one that needs 200.
\<close>

theorem timeout_only_race_witness:
  "retries (Worker ''w'' (resolves_after 5) no_options) = 0
   \<and> 0 < raw_timeout job_timed \<and> raw_timeout job_timed \<le> 2147483647
   \<and> int 5 < raw_timeout job_timed
   \<and> execute 0 parse_empty_object (Worker ''w'' (resolves_after 5) no_options) job_timed
         init_state
       = (Returned, \<lparr>executionCount = 0, calls = 1,
            trace = [OnStart (decode job_timed ()), TimerSet 50, Invoked (),
                     OnSuccess (decode job_timed ()), OnCompletion (decode job_timed ())]\<rparr>)
   \<and> raw_timeout job_timed < int 200
   \<and> execute 0 parse_empty_object (Worker ''w'' (resolves_after 200) no_options) job_timed
         init_state
       = (Threw (Error ''Job 8 timed out''), \<lparr>executionCount = 0, calls = 1,
            trace = [OnStart (decode job_timed ()), TimerSet 50, Invoked (),
                     OnFailure (decode job_timed ()) (Error ''Job 8 timed out''),
                     OnCompletion (decode job_timed ())]\<rparr>)"
proof -
  have t: "0 < raw_timeout job_timed" "raw_timeout job_timed \<le> 2147483647"
    by (simp_all add: job_timed_def)
  have fast: "execute 0 parse_empty_object (Worker ''w'' (resolves_after 5) no_options) job_timed
         init_state
       = (Returned, \<lparr>executionCount = 0, calls = 1,
            trace = [OnStart (decode job_timed ()), TimerSet 50, Invoked (),
                     OnSuccess (decode job_timed ()), OnCompletion (decode job_timed ())]\<rparr>)"
    using timeout_only_race
            [where w = "Worker ''w'' (resolves_after 5) no_options" and rj = job_timed
               and JSON_parse = parse_empty_object and p = "()" and s = init_state and n = 0
               and d = 5 and v = 42,
             OF worker_fields(1) t parse_examples(2)]
    by (simp add: worker_fields resolves_after_def job_timed_def init_state_def)
  have slow: "execute 0 parse_empty_object (Worker ''w'' (resolves_after 200) no_options) job_timed
         init_state
       = (Threw (Error ''Job 8 timed out''), \<lparr>executionCount = 0, calls = 1,
            trace = [OnStart (decode job_timed ()), TimerSet 50, Invoked (),
                     OnFailure (decode job_timed ()) (Error ''Job 8 timed out''),
                     OnCompletion (decode job_timed ())]\<rparr>)"
    using timeout_only_race
            [where w = "Worker ''w'' (resolves_after 200) no_options" and rj = job_timed
               and JSON_parse = parse_empty_object and p = "()" and s = init_state and n = 0
               and d = 200 and v = 42,
             OF worker_fields(1) t parse_examples(2)]
    by (simp add: worker_fields resolves_after_def job_timed_def init_state_def)
  from fast slow t show ?thesis
    by (simp add: worker_fields job_timed_def)
qed

text \<open>
  C6 as stated fails in three ways: \<open>execute\<close> does not resolve with the handler's result,
  since handlers fulfilling with 42 and with 7 leave the same outcome and state; with a timeout
  of \<open>2147483648\<close> the timer comes after a delay of 1, before a handler that needs 5; and a
  callback that throws decides the outcome: \<open>onFailure\<close> replaces the timeout error,
  \<open>onSuccess\<close> and \<open>onCompletion\<close> make a call fail whose handler fulfilled in time, and
  after a throwing \<open>onStart\<close> the handler is not invoked at all.
\<close>

theorem timeout_only_counterexample:
  "execute 0 parse_empty_object (Worker ''w'' (resolves_to 42 5) no_options) job_timed init_state
     = execute 0 parse_empty_object (Worker ''w'' (resolves_to 7 5) no_options) job_timed init_state
   \<and> fst (execute 0 parse_empty_object (Worker ''w'' (resolves_after 5) no_options) job_far
        init_state) = Threw (Error ''Job 6 timed out'')
   \<and> fst (execute 0 parse_empty_object (Worker ''w'' (resolves_after 200) with_throwing_onFailure)
        job_timed init_state) = Threw (Error ''late'')
   \<and> fst (execute 0 parse_empty_object (Worker ''w'' (resolves_after 5) with_throwing_onSuccess)
        job_timed init_state) = Threw (Error ''late'')
   \<and> fst (execute 0 parse_empty_object (Worker ''w'' (resolves_after 5) with_throwing_onCompletion)
        job_timed init_state) = Threw (Error ''last'')
   \<and> execute 0 parse_empty_object (Worker ''w'' (resolves_after 5) with_throwing_onStart)
        job_timed init_state
      = (Threw (Error ''early''), \<lparr>executionCount = 0, calls = 0,
           trace = [OnStart (decode job_timed ()),
                    OnFailure (decode job_timed ()) (Error ''early''),
                    OnCompletion (decode job_timed ())]\<rparr>)"
  by (simp add: timeout_value_run timeout_far_run timeout_throwing_onFailure_run
      timeout_throwing_onSuccess_run timeout_throwing_onCompletion_run
      timeout_throwing_onStart_run)

text \<open>
  C7, at a retry input: one retry and a handler that fails on every invocation. The claim
  expects every failure to reach \<open>onFailure\<close> and the caller. What the code does there: the
  second level builds the error \<open>Job 8 was rejected after 1 retries\<close> and rejects its own
  promise with it, which nobody reads; for every number of retry continuations followed
  \<open>execute\<close> stays suspended and \<open>onStart\<close> is the only callback that ran, so neither
  \<open>onFailure\<close> nor the caller ever sees a failure.
\<close>

theorem retry_exhaustion_error_is_swallowed:
  "fst (executeWithRetry 0 (Worker ''w'' always_failing (with_retries 1)) (decode job_timed ())
          1 50 1 s)
     = Rejected (Error ''Job 8 was rejected after 1 retries. Stack trace: Error: boom'')
   \<and> fst (execute n parse_empty_object (Worker ''w'' always_failing (with_retries 1)) job_timed
          init_state) = Suspended
   \<and> callbacks (trace (snd (execute n parse_empty_object
          (Worker ''w'' always_failing (with_retries 1)) job_timed init_state)))
       = [OnStart (decode job_timed ())]
   \<and> execute 1 parse_empty_object (Worker ''w'' always_failing (with_retries 1)) job_timed
          init_state
       = (Suspended,
          \<lparr>executionCount = 1, calls = 2,
             trace = [OnStart (decode job_timed ()), Invoked (), Waited 50, Invoked (),
                      Waited 50]\<rparr>)"
proof -
  let ?w = "Worker ''w'' always_failing (with_retries 1)"
  let ?jb = "decode job_timed ()"
  let ?s1 = "entered ?jb init_state"
  have h: "executer ?w = always_failing"
    by (simp add: worker_fields)
  have lvl1: "fst (executeWithRetry 0 ?w ?jb 1 50 1 s)
     = Rejected (Error ''Job 8 was rejected after 1 retries. Stack trace: Error: boom'')"
    by (simp add: executeWithRetry_fst h always_failing_def exhaustedError_def show_nat_1
        job_timed_def)
  have p: "parse_empty_object (raw_payload job_timed) = Inr ()"
    by (rule parse_examples)
  have st: "onStart ?w ?jb = None"
    by (simp add: worker_fields)
  have m: "await_mode k ?w ?jb (raw_timeout job_timed) ?s1
      = executeWithRetry k ?w ?jb 1 50 0 ?s1" for k
    by (simp add: await_mode_def worker_fields job_timed_def)
  have pend: "fst (executeWithRetry k ?w ?jb 1 50 0 ?s1) = Pending" for k
    by (simp add: executeWithRetry_fst h always_failing_def)
  have ex: "execute k parse_empty_object ?w job_timed init_state
      = (Suspended, snd (executeWithRetry k ?w ?jb 1 50 0 ?s1))" for k
    using p st m [of k] pend [of k]
    by (simp add: execute_parsed [where p = "()"] prod_eq_iff)
  obtain evs where "trace (snd (executeWithRetry n ?w ?jb 1 50 0 ?s1)) = trace ?s1 @ evs"
      "callbacks evs = []"
    using executeWithRetry_trace [of n ?w ?jb 1 50 0 ?s1] by blast
  then have cbs: "callbacks (trace (snd (executeWithRetry n ?w ?jb 1 50 0 ?s1))) = [OnStart ?jb]"
    by (simp add: init_state_simps)
  have run: "snd (executeWithRetry 1 ?w ?jb 1 50 0 ?s1)
      = \<lparr>executionCount = 1, calls = 2,
         trace = [OnStart ?jb, Invoked (), Waited 50, Invoked (), Waited 50]\<rparr>"
    by (simp add: executeWithRetry.simps invoke_def emit_def entered_def
        init_state_def h always_failing_def Let_def)
  show ?thesis
    using lvl1 ex [of n] ex [of 1] cbs run by simp
qed

text \<open>
  C8. For non-negative \<open>retries\<close> and \<open>timeout\<close>, the promise \<open>execute\<close> awaits is the
  one of the mode the specification selects. In retry mode the timeout is the delay between
  attempts and no deadline: a handler that fulfils does so for \<open>execute\<close> whatever its
  delay, with its invocation as the only event; after a rejected first attempt the events
  go on with a wait of \<open>timeout\<close> and the second attempt; and all the events of the mode
  are attempts separated by one wait of \<open>timeout\<close> each, possibly with a last wait
  pending.
\<close>

theorem mode_selection:
  assumes "0 \<le> retries w" and "0 \<le> timeout"
  shows "await_mode n w jb timeout s =
           (case select_mode timeout (retries w) of
              Retry \<Rightarrow> executeWithRetry n w jb (retries w) timeout 0 s
            | TimeoutOnly \<Rightarrow> executeWithTimeout w jb timeout s
            | Plain \<Rightarrow> (case await_executer w jb s of (pr, s1) \<Rightarrow> (void pr, s1)))
       \<and> (select_mode timeout (retries w) = Retry \<longrightarrow>
            (executer w (calls s) (job_payload jb) = Resolves d v \<longrightarrow>
               await_mode n w jb timeout s =
                 (Fulfilled (),
                  s\<lparr>calls := Suc (calls s), trace := trace s @ [Invoked (job_payload jb)]\<rparr>))
          \<and> (executer w (calls s) (job_payload jb) = Rejects d e \<longrightarrow>
               (\<exists>rest. trace (snd (await_mode (Suc n) w jb timeout s))
                    = trace s @ [Invoked (job_payload jb), Waited timeout, Invoked (job_payload jb)]
                        @ rest))
          \<and> (\<exists>k\<le>n. since s (snd (await_mode n w jb timeout s))
                        = retry_events (job_payload jb) timeout k
                    \<or> since s (snd (await_mode n w jb timeout s))
                        = retry_events (job_payload jb) timeout k @ [Waited timeout]))"
proof -
  have a: "await_mode n w jb timeout s =
           (case select_mode timeout (retries w) of
              Retry \<Rightarrow> executeWithRetry n w jb (retries w) timeout 0 s
            | TimeoutOnly \<Rightarrow> executeWithTimeout w jb timeout s
            | Plain \<Rightarrow> (case await_executer w jb s of (pr, s1) \<Rightarrow> (void pr, s1)))"
    using assms by (simp add: await_mode_def select_mode_def)
  have m: "await_mode k w jb timeout s = executeWithRetry k w jb (retries w) timeout 0 s"
    if "select_mode timeout (retries w) = Retry" for k
    using that by (simp add: await_mode_def select_mode_def split: if_splits)
  have b: "await_mode n w jb timeout s =
                 (Fulfilled (),
                  s\<lparr>calls := Suc (calls s), trace := trace s @ [Invoked (job_payload jb)]\<rparr>)"
    if "select_mode timeout (retries w) = Retry"
      and "executer w (calls s) (job_payload jb) = Resolves d v"
    using that
    by (simp add: m executeWithRetry.simps [of n] invoke_def emit_def)
  have c: "\<exists>rest. trace (snd (await_mode (Suc n) w jb timeout s))
                    = trace s @ [Invoked (job_payload jb), Waited timeout, Invoked (job_payload jb)]
                        @ rest"
    if "select_mode timeout (retries w) = Retry"
      and "executer w (calls s) (job_payload jb) = Rejects d e"
    using that executeWithRetry_second_attempt [of w s jb d e n "retries w" timeout 0]
    by (simp add: m)
  have d: "\<exists>k\<le>n. since s (snd (await_mode n w jb timeout s))
                        = retry_events (job_payload jb) timeout k
                    \<or> since s (snd (await_mode n w jb timeout s))
                        = retry_events (job_payload jb) timeout k @ [Waited timeout]"
    if "select_mode timeout (retries w) = Retry"
    using executeWithRetry_events [of n w jb "retries w" timeout 0 s]
    by (auto simp: m [OF that])
  from a b c d show ?thesis
    by blast
qed

text \<open>
  C8, an instance: two retries, a timeout of 50 and a handler that fails twice before it
  succeeds.
\<close>

theorem mode_selection_witness:
  "0 \<le> retries (Worker ''w'' fails_twice (with_retries 2)) \<and> (0::int) \<le> 50
   \<and> select_mode 50 (retries (Worker ''w'' fails_twice (with_retries 2))) = Retry
   \<and> executer (Worker ''w'' fails_twice (with_retries 2)) (calls (init_state :: unit wstate)) ()
       = Rejects 0 (Error ''boom'')
   \<and> await_mode 2 (Worker ''w'' fails_twice (with_retries 2)) (decode job_timed ()) 50 init_state
      = executeWithRetry 2 (Worker ''w'' fails_twice (with_retries 2)) (decode job_timed ())
          2 50 0 init_state
   \<and> (\<exists>rest. trace (snd (await_mode 2 (Worker ''w'' fails_twice (with_retries 2))
                  (decode job_timed ()) 50 init_state))
          = [Invoked (), Waited 50, Invoked ()] @ rest)
   \<and> trace (snd (await_mode 2 (Worker ''w'' fails_twice (with_retries 2))
                  (decode job_timed ()) 50 init_state))
      = [Invoked (), Waited 50, Invoked (), Waited 50, Invoked ()]"
proof -
  let ?w = "Worker ''w'' fails_twice (with_retries 2)"
  let ?jb = "decode job_timed ()"
  have r: "0 \<le> retries ?w"
    by (simp add: worker_fields)
  have z: "(0::int) \<le> 50"
    by simp
  have m: "select_mode 50 (retries ?w) = Retry"
    by (simp add: select_mode_def worker_fields)
  have h: "executer ?w (calls (init_state :: unit wstate)) (job_payload ?jb)
      = Rejects 0 (Error ''boom'')"
    by (simp add: worker_fields fails_twice_def init_state_simps)
  note th = mode_selection [where w = ?w and timeout = 50 and jb = ?jb and s = init_state
      and d = 0 and e = "Error ''boom''", OF r z]
  from th [where n = 2] have a: "await_mode 2 ?w ?jb 50 init_state
      = executeWithRetry 2 ?w ?jb 2 50 0 init_state"
    by (simp add: select_mode_def worker_fields)
  from th [where n = 1] m h
  have "\<exists>rest. trace (snd (await_mode (Suc 1) ?w ?jb 50 init_state))
      = trace (init_state :: unit wstate) @ [Invoked (job_payload ?jb), Waited 50,
          Invoked (job_payload ?jb)] @ rest"
    by blast
  then have b: "\<exists>rest. trace (snd (await_mode 2 ?w ?jb 50 init_state))
      = [Invoked (), Waited 50, Invoked ()] @ rest"
    by (simp add: init_state_simps numeral_2_eq_2)
  have ex: "executer ?w = fails_twice"
    by (simp add: worker_fields)
  have c: "trace (snd (await_mode 2 ?w ?jb 50 init_state))
      = [Invoked (), Waited 50, Invoked (), Waited 50, Invoked ()]"
    unfolding a
    by (simp add: numeral_2_eq_2 executeWithRetry.simps invoke_def emit_def init_state_def
        ex fails_twice_def Let_def)
  have h': "executer ?w (calls (init_state :: unit wstate)) () = Rejects 0 (Error ''boom'')"
    using h by simp
  from r z m h' a b c show ?thesis
    by (intro conjI)
qed

text \<open>
  C9. If the payload does not parse, \<open>execute\<close> rejects with the parse error and the
  state of the worker (counter, handler invocations, events) is the one before the call;
  among concurrent calls, such a call changes nothing either.
\<close>

theorem parse_failure_leaves_worker_untouched:
  assumes "JSON_parse (raw_payload rj) = Inl e"
  shows "execute n JSON_parse w rj s = (Threw e, s)
       \<and> step n JSON_parse w (s, pend) (Call rj) = (s, pend)"
  using assms by (simp add: execute_def execute_begin_def)

text \<open>
  C9, an instance: a malformed payload.
\<close>

theorem parse_failure_leaves_worker_untouched_witness:
  "parse_empty_object (raw_payload job_malformed) = Inl (SyntaxError ''Unexpected end of JSON input'')
   \<and> execute 0 parse_empty_object (Worker ''w'' (resolves_after 5) (with_retries 2)) job_malformed
         init_state
       = (Threw (SyntaxError ''Unexpected end of JSON input''), init_state)
   \<and> step 0 parse_empty_object (Worker ''w'' (resolves_after 5) (with_retries 2))
         (init_state, []) (Call job_malformed) = (init_state, [])"
  using parse_failure_leaves_worker_untouched
          [where JSON_parse = parse_empty_object and rj = job_malformed and n = 0
             and w = "Worker ''w'' (resolves_after 5) (with_retries 2)"
             and s = init_state and pend = "[]", OF parse_examples(3)]
  by (simp add: parse_examples)

text \<open>
  C10. In retry mode the promise \<open>execute\<close> awaits is decided by the first level alone:
  following more retry continuations never changes it, and it is fulfilled exactly when the
  first handler invocation fulfils and rejected exactly when that invocation throws before
  returning its promise. If the promise of the first invocation rejects, then for every number of
  continuations followed \<open>execute\<close> is suspended, the counter is one above its value before
  the call, and \<open>onStart\<close> is the only callback of the call.
\<close>

theorem retry_promise_settles_at_first_level_only:
  assumes "0 < retries w"
  shows "fst (await_mode n w jb t s) = fst (await_mode 0 w jb t s)
       \<and> (fst (await_mode n w jb t s) = Fulfilled ()
            \<longleftrightarrow> (\<exists>d v. executer w (calls s) (job_payload jb) = Resolves d v))
       \<and> (fst (await_mode n w jb t s) = Rejected x
            \<longleftrightarrow> executer w (calls s) (job_payload jb) = Throws x)
       \<and> (\<forall>p d e. JSON_parse (raw_payload rj) = Inr p \<and> onStart w (decode rj p) = None
              \<and> executer w (calls s) p = Rejects d e \<longrightarrow>
            fst (execute n JSON_parse w rj s) = Suspended
            \<and> executionCount (snd (execute n JSON_parse w rj s)) = executionCount s + 1
            \<and> callbacks (since s (snd (execute n JSON_parse w rj s))) = [OnStart (decode rj p)])"
proof -
  have a: "fst (await_mode n w jb t s) = fst (await_mode 0 w jb t s)"
    using assms by (simp add: await_mode_def executeWithRetry_fst)
  have b: "fst (await_mode n w jb t s) = Fulfilled ()
            \<longleftrightarrow> (\<exists>d v. executer w (calls s) (job_payload jb) = Resolves d v)"
    using assms by (auto simp: await_mode_def executeWithRetry_fst split: settle.splits)
  have b': "fst (await_mode n w jb t s) = Rejected x
            \<longleftrightarrow> executer w (calls s) (job_payload jb) = Throws x"
    using assms by (auto simp: await_mode_def executeWithRetry_fst split: settle.splits)
  have c: "fst (execute n JSON_parse w rj s) = Suspended
            \<and> executionCount (snd (execute n JSON_parse w rj s)) = executionCount s + 1
            \<and> callbacks (since s (snd (execute n JSON_parse w rj s))) = [OnStart (decode rj p)]"
    if p: "JSON_parse (raw_payload rj) = Inr p" and st: "onStart w (decode rj p) = None"
      and h: "executer w (calls s) p = Rejects d e" for p d e
  proof -
    let ?jb = "decode rj p"
    let ?m = "await_mode n w ?jb (raw_timeout rj) (entered ?jb s)"
    have pend: "fst ?m = Pending"
      using assms h by (simp add: await_mode_def executeWithRetry_fst)
    obtain evs where evs: "trace (snd (execute n JSON_parse w rj s)) = trace s @ evs"
        "callbacks evs = [OnStart ?jb]"
      using execute_callbacks [where JSON_parse = JSON_parse and rj = rj and p = p and n = n
        and w = w and s = s] p st pend by auto
    then have "callbacks (since s (snd (execute n JSON_parse w rj s))) = [OnStart ?jb]"
      by simp
    with p st pend show ?thesis
      by (simp add: execute_parsed)
  qed
  from a b b' c show ?thesis by blast
qed

text \<open>
  C10, an instance: two retries and a handler that always fails, followed through four
  continuations.
\<close>

theorem retry_promise_settles_at_first_level_only_witness:
  "0 < retries (Worker ''w'' always_failing (with_retries 2))
   \<and> parse_empty_object (raw_payload job_timed) = Inr ()
   \<and> fst (execute 4 parse_empty_object (Worker ''w'' always_failing (with_retries 2)) job_timed
         init_state) = Suspended
   \<and> executionCount (snd (execute 4 parse_empty_object
         (Worker ''w'' always_failing (with_retries 2)) job_timed init_state)) = 1
   \<and> callbacks (since init_state (snd (execute 4 parse_empty_object
         (Worker ''w'' always_failing (with_retries 2)) job_timed init_state)))
       = [OnStart (decode job_timed ())]"
proof -
  let ?w = "Worker ''w'' always_failing (with_retries 2)"
  have r: "0 < retries ?w"
    by (simp add: worker_fields)
  from retry_promise_settles_at_first_level_only
         [where w = ?w and n = 4 and JSON_parse = parse_empty_object and rj = job_timed
            and s = init_state, OF r]
  have "\<forall>p d e. parse_empty_object (raw_payload job_timed) = Inr p \<and> onStart ?w (decode job_timed p) = None
              \<and> executer ?w (calls (init_state :: unit wstate)) p = Rejects d e \<longrightarrow>
            fst (execute 4 parse_empty_object ?w job_timed init_state) = Suspended
            \<and> executionCount (snd (execute 4 parse_empty_object ?w job_timed init_state))
                = executionCount (init_state :: unit wstate) + 1
            \<and> callbacks (since init_state (snd (execute 4 parse_empty_object ?w job_timed init_state)))
                = [OnStart (decode job_timed p)]"
    by blast
  then show ?thesis
    by (simp add: worker_fields parse_examples always_failing_def init_state_simps)
qed

end
